theory Spec2Isabelle
  imports Complex_Main "HOL-Library.Multiset"
begin

section \<open>Data model (types.ts and the state hooks of App.tsx)\<close>

text \<open>
  \<^verbatim>\<open>Song\<close> and \<^verbatim>\<open>Playlist\<close> of types.ts. Both interfaces have a field \<^verbatim>\<open>id\<close>; the
  record fields carry a suffix, since \<open>id\<close> is a HOL constant and two records cannot share
  a field name. Strings are HOL strings; a character stands for one code unit below 256.
\<close>

record Song =
  id_song :: string
  title :: string

record Playlist =
  id_playlist :: string
  name :: string
  songs :: "Song list"

datatype View =
    MainMenu | Playlists | PlaylistView | AddSong | NowPlayingView
  | SelectPlaylistForSong | CreatePlaylistInput | SongMenu
  | DeleteSongConfirm | DeletePlaylistConfirm | ShuffleConfirm | EditSongTitle

datatype PlaybackMode = Audio | Video

datatype RepeatMode = Off | One | All

text \<open>
  The selection index is a JavaScript number. All values it takes in the program are
  integers, except that \<^verbatim>\<open>x % 0\<close> is \<^verbatim>\<open>NaN\<close>, and every arithmetic operation on
  \<^verbatim>\<open>NaN\<close> gives \<^verbatim>\<open>NaN\<close>.
\<close>

datatype jsnum = Num int | NaN

text \<open>
  The now-playing pointer. Its fields are declared as a string and a number, but
  \<^verbatim>\<open>handleSongMenuSelection\<close> fills them from nullable values through \<^verbatim>\<open>!\<close>, which is
  erased: at run time either field can be \<^verbatim>\<open>null\<close>, here \<open>None\<close>.
\<close>

record NowPlaying =
  playlistId :: "string option"
  songIndex :: "int option"

text \<open>Calls a handler makes on the external player object \<^verbatim>\<open>ytPlayer.current\<close>.\<close>

datatype YtCall = SeekTo int | PlayVideo | PauseVideo

text \<open>
  The component state: one field per \<^verbatim>\<open>useState\<close> hook that the handlers read or write
  (the theme is omitted: no handler below reads it). \<open>ytCalls\<close> logs, oldest first, the
  calls that the handlers make on the external player.
\<close>

record state =
  playlists :: "Playlist list"
  view :: View
  activePlaylistId :: "string option"
  nowPlaying :: "NowPlaying option"
  playbackMode :: PlaybackMode
  repeatMode :: RepeatMode
  isPlaying :: bool
  selectedIndex :: jsnum
  urlInput :: string
  tempSong :: "Song option"
  newPlaylistName :: string
  draggedItemIndex :: "int option"
  dragOverIndex :: "int option"
  selectedSongIndex :: "int option"
  playlistToDeleteId :: "string option"
  playlistSearchQuery :: string
  ytCalls :: "YtCall list"

text \<open>
  What a handler reads from outside the component state at the time of an event:
  the resolver \<^verbatim>\<open>getYouTubeId\<close> of services/youtubeService (not part of the sources at
  hand, hence a parameter; \<open>None\<close> is its \<^verbatim>\<open>null\<close>), the clock reading
  \<^verbatim>\<open>Date.now().toString()\<close>, the successive results of \<^verbatim>\<open>Math.random()\<close> (\<open>random k\<close> is
  the result of the call number \<open>k\<close>, counted from 0), the external player: whether
  \<^verbatim>\<open>ytPlayer.current\<close> is set, whether \<^verbatim>\<open>isPlayerReady.current\<close> holds, what
  \<^verbatim>\<open>getCurrentTime()\<close> returns and whether \<^verbatim>\<open>getPlayerState()\<close> is \<^verbatim>\<open>PLAYING\<close>, and the
  string comparison of the platform, \<^verbatim>\<open>a.localeCompare(b, undefined, { sensitivity: 'base' })\<close>,
  whose result is negative, zero or positive. That comparison is the collation of the
  host's locale data: it is a parameter here, and what a theorem needs of it is stated
  as a hypothesis.
\<close>

record env =
  getYouTubeId :: "string \<Rightarrow> string option"
  dateNow :: string
  random :: "nat \<Rightarrow> rat"
  ytPlayer :: bool
  isPlayerReady :: bool
  getCurrentTime :: rat
  playerStatePlaying :: bool
  localeCompare :: "string \<Rightarrow> string \<Rightarrow> int"

text \<open>
  Exceptional outcomes. \<open>TypeError\<close>: a property is read from \<^verbatim>\<open>undefined\<close>.
  \<open>UndefinedSong\<close>: the source would store \<^verbatim>\<open>undefined\<close> in a \<^verbatim>\<open>Song[]\<close>, which leaves the
  typed state space that this model represents.
\<close>

datatype js_error = TypeError | UndefinedSong

section \<open>JavaScript primitives used by the handlers\<close>

text \<open>Truthiness of a string and of a nullable string: \<^verbatim>\<open>''\<close> and \<^verbatim>\<open>null\<close> are falsy.\<close>

definition truthy :: "string \<Rightarrow> bool" where
  "truthy s = (s \<noteq> [])"

definition truthy_opt :: "string option \<Rightarrow> bool" where
  "truthy_opt x = (case x of None \<Rightarrow> False | Some s \<Rightarrow> truthy s)"

text \<open>\<^verbatim>\<open>a % b\<close> on integers: the remainder takes the sign of the dividend.\<close>

definition js_rem :: "int \<Rightarrow> int \<Rightarrow> int" where
  "js_rem a b = sgn a * (\<bar>a\<bar> mod \<bar>b\<bar>)"

text \<open>\<^verbatim>\<open>xs[i]\<close>: \<^verbatim>\<open>undefined\<close> (here \<open>None\<close>) outside the array and at \<^verbatim>\<open>NaN\<close>.\<close>

definition js_at :: "'a list \<Rightarrow> int \<Rightarrow> 'a option" where
  "js_at xs i = (if 0 \<le> i \<and> i < int (length xs) then Some (xs ! nat i) else None)"

definition js_index :: "'a list \<Rightarrow> jsnum \<Rightarrow> 'a option" where
  "js_index xs n = (case n of NaN \<Rightarrow> None | Num i \<Rightarrow> js_at xs i)"

text \<open>
  A nullable number: in arithmetic and comparisons \<^verbatim>\<open>null\<close> counts as 0, and \<^verbatim>\<open>xs[null]\<close>
  reads the property named "null", which an array does not have.
\<close>

definition toNumber :: "int option \<Rightarrow> int" where
  "toNumber x = (case x of None \<Rightarrow> 0 | Some i \<Rightarrow> i)"

definition js_at_nullable :: "'a list \<Rightarrow> int option \<Rightarrow> 'a option" where
  "js_at_nullable xs x = (case x of None \<Rightarrow> None | Some i \<Rightarrow> js_at xs i)"

text \<open>\<^verbatim>\<open>xs.find(p)\<close> is \<^const>\<open>List.find\<close>. \<^verbatim>\<open>xs.findIndex(p)\<close>: \<open>-1\<close> when nothing matches.\<close>

fun findIndex :: "('a \<Rightarrow> bool) \<Rightarrow> 'a list \<Rightarrow> int" where
  "findIndex P [] = -1"
| "findIndex P (x # xs) =
     (if P x then 0 else (let r = findIndex P xs in if r < 0 then -1 else r + 1))"

text \<open>
  The start position of \<^verbatim>\<open>splice(start, ...)\<close> on an array of length \<open>n\<close>: a negative
  start counts from the end, and the result is clamped to \<open>0..n\<close>.
\<close>

definition spliceStart :: "nat \<Rightarrow> int \<Rightarrow> nat" where
  "spliceStart n start = (if start < 0 then nat (max (int n + start) 0) else min (nat start) n)"

text \<open>\<^verbatim>\<open>xs.splice(start, 1)\<close>: the array that remains.\<close>

definition spliceOut :: "int \<Rightarrow> 'a list \<Rightarrow> 'a list" where
  "spliceOut start xs = (let a = spliceStart (length xs) start in take a xs @ drop (Suc a) xs)"

text \<open>\<^verbatim>\<open>xs.splice(start, 0, x)\<close>: the array with \<open>x\<close> inserted.\<close>

definition spliceIn :: "int \<Rightarrow> 'a \<Rightarrow> 'a list \<Rightarrow> 'a list" where
  "spliceIn start x xs = (let b = spliceStart (length xs) start in take b xs @ x # drop b xs)"

text \<open>
  String primitives. White space of \<^verbatim>\<open>trim()\<close> among the code units below 256: tab, line
  feed, vertical tab, form feed, carriage return, space and no-break space.
  \<^verbatim>\<open>toLowerCase()\<close> on those code units: the capitals are A to Z and the Latin-1 capitals
  0xC0 to 0xDE without the multiplication sign 0xD7, each 32 below its small letter.
\<close>

definition isWhiteSpace :: "char \<Rightarrow> bool" where
  "isWhiteSpace c = ((of_char c :: nat) \<in> {9, 10, 11, 12, 13, 32, 160})"

definition trim :: "string \<Rightarrow> string" where
  "trim s = rev (dropWhile isWhiteSpace (rev (dropWhile isWhiteSpace s)))"

definition toLowerChar :: "char \<Rightarrow> char" where
  "toLowerChar c =
     (let n = (of_char c :: nat) in
      if (65 \<le> n \<and> n \<le> 90) \<or> (192 \<le> n \<and> n \<le> 222 \<and> n \<noteq> 215)
      then char_of (n + 32) else c)"

definition toLowerCase :: "string \<Rightarrow> string" where
  "toLowerCase s = map toLowerChar s"

fun startsWith :: "string \<Rightarrow> string \<Rightarrow> bool" where
  "startsWith s [] = True"
| "startsWith [] (c # cs) = False"
| "startsWith (d # ds) (c # cs) = (d = c \<and> startsWith ds cs)"

text \<open>\<^verbatim>\<open>s.includes(sub)\<close> (\<open>includes\<close> is a keyword of Isabelle, hence the suffix).\<close>

fun includes_str :: "string \<Rightarrow> string \<Rightarrow> bool" where
  "includes_str [] sub = (sub = [])"
| "includes_str (d # ds) sub = (startsWith (d # ds) sub \<or> includes_str ds sub)"

text \<open>
  A comparison for the scenarios: code unit by code unit, on the strings folded to lower
  case. It is not the platform's collation (which, for one, puts punctuation before
  letters); on names made of the unaccented letters, as in the scenarios, it orders as
  any collation that is blind to case does: alphabetically.
\<close>

definition lowerCode :: "char \<Rightarrow> nat" where
  "lowerCode c = of_char (toLowerChar c)"

fun foldedCompare :: "string \<Rightarrow> string \<Rightarrow> int" where
  "foldedCompare [] [] = 0"
| "foldedCompare [] (b # bs) = -1"
| "foldedCompare (a # as) [] = 1"
| "foldedCompare (a # as) (b # bs) =
     (if lowerCode a < lowerCode b then -1
      else if lowerCode b < lowerCode a then 1
      else foldedCompare as bs)"

text \<open>
  \<^verbatim>\<open>xs.sort(cmp)\<close>, a stable sort: each element is inserted before the first later
  element that does not precede it.
\<close>

fun sortInsert :: "('a \<Rightarrow> 'a \<Rightarrow> int) \<Rightarrow> 'a \<Rightarrow> 'a list \<Rightarrow> 'a list" where
  "sortInsert cmp x [] = [x]"
| "sortInsert cmp x (y # ys) = (if cmp x y \<le> 0 then x # y # ys else y # sortInsert cmp x ys)"

definition js_sort :: "('a \<Rightarrow> 'a \<Rightarrow> int) \<Rightarrow> 'a list \<Rightarrow> 'a list" where
  "js_sort cmp xs = foldr (sortInsert cmp) xs []"

section \<open>Derived values of a render (App.tsx, lines 175 to 196)\<close>

definition menuItems :: "string list" where
  "menuItems = [''Playlists'', ''Add YouTube URL'', ''Now Playing'']"

definition nowPlayingMenuItems :: "string list" where
  "nowPlayingMenuItems = [''prev'', ''play-pause'', ''next'', ''playback-mode'', ''repeat-mode'']"

definition playlistItems :: "state \<Rightarrow> Playlist list" where
  "playlistItems s =
     (if truthy (playlistSearchQuery s)
      then filter (\<lambda>p. includes_str (toLowerCase (name p)) (toLowerCase (playlistSearchQuery s)))
             (playlists s)
      else playlists s)"

definition playlistMenuItems :: "state \<Rightarrow> Playlist list" where
  "playlistMenuItems s =
     playlistItems s @ [\<lparr>id_playlist = ''CREATE_NEW'', name = ''+ Create New Playlist'', songs = []\<rparr>]"

text \<open>The item list of the select-playlist-for-song view, built inline at each use.\<close>

definition selectPlaylistItems :: "state \<Rightarrow> Playlist list" where
  "selectPlaylistItems s =
     playlists s @ [\<lparr>id_playlist = ''new'', name = ''Create New Playlist'', songs = []\<rparr>]"

definition activePlaylist :: "state \<Rightarrow> Playlist option" where
  "activePlaylist s = find (\<lambda>p. Some (id_playlist p) = activePlaylistId s) (playlists s)"

text \<open>
  \<^verbatim>\<open>currentSong\<close>: \<open>None\<close> stands for \<^verbatim>\<open>null\<close> and \<^verbatim>\<open>undefined\<close> alike; every reader
  only tests its truthiness or reads its fields after such a test.
\<close>

definition currentSong :: "state \<Rightarrow> Song option" where
  "currentSong s =
     (case nowPlaying s of
        None \<Rightarrow> None
      | Some np \<Rightarrow>
          (case find (\<lambda>p. Some (id_playlist p) = playlistId np) (playlists s) of
             None \<Rightarrow> None
           | Some p \<Rightarrow> js_at_nullable (songs p) (songIndex np)))"

definition getPlaylistViewItems :: "state \<Rightarrow> Song list" where
  "getPlaylistViewItems s =
     (case activePlaylist s of
        None \<Rightarrow> []
      | Some p \<Rightarrow>
          (if length (songs p) > 0
           then [\<lparr>id_song = ''SHUFFLE_PLAYLIST'', title = ''Shuffle Playlist''\<rparr>] @ songs p
           else [])
          @ [\<lparr>id_song = ''DELETE_PLAYLIST'', title = ''Delete This Playlist''\<rparr>])"

section \<open>Wheel rotation: navigate, handleNext, handlePrev\<close>

datatype direction = Next | Prev

text \<open>
  \<^verbatim>\<open>navigate(items, direction)\<close> reads only \<^verbatim>\<open>items.length\<close>, here \<open>n\<close>. The source
  does not test \<open>n\<close>: with \<open>n = 0\<close> the remainder is \<^verbatim>\<open>NaN\<close>.
\<close>

definition navigateIndex :: "nat \<Rightarrow> direction \<Rightarrow> jsnum \<Rightarrow> jsnum" where
  "navigateIndex n d prev =
     (case prev of
        NaN \<Rightarrow> NaN
      | Num p \<Rightarrow>
          if n = 0 then NaN
          else (case d of
                  Next \<Rightarrow> Num (js_rem (p + 1) (int n))
                | Prev \<Rightarrow> Num (js_rem (p - 1 + int n) (int n))))"

definition navigate :: "nat \<Rightarrow> direction \<Rightarrow> state \<Rightarrow> state" where
  "navigate n d s = s\<lparr>selectedIndex := navigateIndex n d (selectedIndex s)\<rparr>"

text \<open>
  The length of the list that \<^verbatim>\<open>handleNext\<close> and \<^verbatim>\<open>handlePrev\<close> pass to \<^verbatim>\<open>navigate\<close>
  in each view; \<open>None\<close> for the views that their \<^verbatim>\<open>switch\<close> has no case for.
\<close>

definition navItems :: "state \<Rightarrow> nat option" where
  "navItems s =
     (case view s of
        MainMenu \<Rightarrow> Some (length menuItems)
      | Playlists \<Rightarrow> Some (length (playlistMenuItems s))
      | PlaylistView \<Rightarrow> Some (length (getPlaylistViewItems s))
      | SelectPlaylistForSong \<Rightarrow> Some (length (selectPlaylistItems s))
      | SongMenu \<Rightarrow> Some (length [''Play''])
      | DeleteSongConfirm \<Rightarrow> Some (length [''No'', ''Yes''])
      | DeletePlaylistConfirm \<Rightarrow> Some (length [''No'', ''Yes''])
      | ShuffleConfirm \<Rightarrow> Some (length [''No'', ''Yes''])
      | NowPlayingView \<Rightarrow> Some (length nowPlayingMenuItems)
      | _ \<Rightarrow> None)"

definition handleNext :: "state \<Rightarrow> state" where
  "handleNext s = (case navItems s of None \<Rightarrow> s | Some n \<Rightarrow> navigate n Next s)"

definition handlePrev :: "state \<Rightarrow> state" where
  "handlePrev s = (case navItems s of None \<Rightarrow> s | Some n \<Rightarrow> navigate n Prev s)"

section \<open>Playback coordinator\<close>

text \<open>\<^verbatim>\<open>ytPlayer.current?.m()\<close>: the call is made, and logged, only when the player is set.\<close>

definition ytCall :: "env \<Rightarrow> YtCall \<Rightarrow> state \<Rightarrow> state" where
  "ytCall e c s = (if ytPlayer e then s\<lparr>ytCalls := ytCalls s @ [c]\<rparr> else s)"

definition handleNextTrack :: "state \<Rightarrow> state" where
  "handleNextTrack s =
     (case nowPlaying s of
        None \<Rightarrow> s
      | Some np \<Rightarrow>
          (case find (\<lambda>p. Some (id_playlist p) = playlistId np) (playlists s) of
             None \<Rightarrow> s
           | Some pl \<Rightarrow>
               (let nextIndex = toNumber (songIndex np) + 1 in
                if nextIndex < int (length (songs pl))
                then s\<lparr>nowPlaying := Some (np\<lparr>songIndex := Some nextIndex\<rparr>)\<rparr>
                else if repeatMode s = All
                then s\<lparr>nowPlaying := Some (np\<lparr>songIndex := Some 0\<rparr>)\<rparr>
                else s)))"

definition handlePrevTrack :: "env \<Rightarrow> state \<Rightarrow> state" where
  "handlePrevTrack e s =
     (case nowPlaying s of
        None \<Rightarrow> s
      | Some np \<Rightarrow>
          (let playerTime = (if ytPlayer e then getCurrentTime e else 0) in
           if playerTime > 3 then ytCall e (SeekTo 0) s
           else if toNumber (songIndex np) > 0
           then s\<lparr>nowPlaying := Some (np\<lparr>songIndex := Some (toNumber (songIndex np) - 1)\<rparr>)\<rparr>
           else (case find (\<lambda>p. Some (id_playlist p) = playlistId np) (playlists s) of
                   None \<Rightarrow> ytCall e (SeekTo 0) s
                 | Some pl \<Rightarrow>
                     if repeatMode s = All \<and> length (songs pl) > 0
                     then s\<lparr>nowPlaying :=
                            Some (np\<lparr>songIndex := Some (int (length (songs pl)) - 1)\<rparr>)\<rparr>
                     else ytCall e (SeekTo 0) s)))"

text \<open>
  \<^verbatim>\<open>handleSongEnd\<close> is a closure of the render that made it: it reads \<^verbatim>\<open>nowPlaying\<close>,
  \<^verbatim>\<open>playlists\<close> and \<^verbatim>\<open>repeatMode\<close> as they were in that render (the record \<open>captured\<close>),
  and its \<^verbatim>\<open>setNowPlaying\<close> and \<^verbatim>\<open>setIsPlaying\<close> write to the state as it is when the closure
  runs. The handlers of the click wheel are passed to the wheel anew at every render, so
  for them the two states are the same; \<^verbatim>\<open>handleSongEnd\<close> is called only by the player's
  \<^verbatim>\<open>onStateChange\<close> (see the player events below), where they differ.
\<close>

record captured =
  nowPlaying_c :: "NowPlaying option"
  playlists_c :: "Playlist list"
  repeatMode_c :: RepeatMode

definition capture :: "state \<Rightarrow> captured" where
  "capture s =
     \<lparr>nowPlaying_c = nowPlaying s, playlists_c = playlists s, repeatMode_c = repeatMode s\<rparr>"

definition handleSongEnd :: "env \<Rightarrow> captured \<Rightarrow> state \<Rightarrow> state" where
  "handleSongEnd e c s =
     (case nowPlaying_c c of
        None \<Rightarrow> s
      | Some np \<Rightarrow>
          (case find (\<lambda>p. Some (id_playlist p) = playlistId np) (playlists_c c) of
             None \<Rightarrow> s\<lparr>isPlaying := False\<rparr>
           | Some pl \<Rightarrow>
               if length (songs pl) = 0 then s\<lparr>isPlaying := False\<rparr>
               else if repeatMode_c c = One then ytCall e PlayVideo (ytCall e (SeekTo 0) s)
               else (let nextIndex = toNumber (songIndex np) + 1 in
                     if repeatMode_c c = All
                     then s\<lparr>nowPlaying :=
                            Some (np\<lparr>songIndex :=
                                       Some (js_rem nextIndex (int (length (songs pl))))\<rparr>)\<rparr>
                     else if nextIndex < int (length (songs pl))
                     then s\<lparr>nowPlaying := Some (np\<lparr>songIndex := Some nextIndex\<rparr>)\<rparr>
                     else s\<lparr>isPlaying := False\<rparr>)))"

definition handlePlayPause :: "env \<Rightarrow> state \<Rightarrow> state" where
  "handlePlayPause e s =
     (if ytPlayer e \<and> isPlayerReady e
      then (if playerStatePlaying e then ytCall e PauseVideo s else ytCall e PlayVideo s)
      else if currentSong s \<noteq> None then s\<lparr>isPlaying := \<not> isPlaying s\<rparr>
      else (case playlists s of
              [] \<Rightarrow> s
            | p # ps \<Rightarrow>
                if length (songs p) > 0
                then s\<lparr>nowPlaying :=
                         Some \<lparr>playlistId = Some (id_playlist p), songIndex = Some 0\<rparr>,
                       view := NowPlayingView\<rparr>
                else s))"

section \<open>The menu button\<close>

definition handleMenu :: "state \<Rightarrow> state" where
  "handleMenu s =
     (let s0 = s\<lparr>selectedIndex := Num 0\<rparr> in
      case view s of
        Playlists \<Rightarrow> s0\<lparr>view := MainMenu, playlistSearchQuery := []\<rparr>
      | PlaylistView \<Rightarrow> s0\<lparr>view := Playlists, activePlaylistId := None\<rparr>
      | AddSong \<Rightarrow>
          (if length (playlists s) > 0 then s0\<lparr>view := MainMenu\<rparr> else s0)\<lparr>urlInput := []\<rparr>
      | NowPlayingView \<Rightarrow>
          s0\<lparr>view := (if truthy_opt (activePlaylistId s) then PlaylistView else MainMenu)\<rparr>
      | SelectPlaylistForSong \<Rightarrow> s0\<lparr>view := AddSong, tempSong := None\<rparr>
      | CreatePlaylistInput \<Rightarrow>
          s0\<lparr>view := (if tempSong s \<noteq> None then SelectPlaylistForSong else Playlists),
             newPlaylistName := []\<rparr>
      | SongMenu \<Rightarrow> s0\<lparr>view := PlaylistView, selectedSongIndex := None\<rparr>
      | DeleteSongConfirm \<Rightarrow> s0\<lparr>view := SongMenu\<rparr>
      | DeletePlaylistConfirm \<Rightarrow> s0\<lparr>view := PlaylistView, playlistToDeleteId := None\<rparr>
      | ShuffleConfirm \<Rightarrow> s0\<lparr>view := PlaylistView\<rparr>
      | _ \<Rightarrow> (if length (playlists s) > 0 \<and> view s \<noteq> MainMenu then s0\<lparr>view := MainMenu\<rparr> else s0))"

section \<open>Data operations\<close>

definition addSongToPlaylist :: "string \<Rightarrow> Song \<Rightarrow> state \<Rightarrow> state" where
  "addSongToPlaylist pid song s =
     s\<lparr>playlists :=
          map (\<lambda>p. if id_playlist p = pid then p\<lparr>songs := songs p @ [song]\<rparr> else p) (playlists s),
       tempSong := None,
       activePlaylistId := Some pid,
       view := PlaylistView,
       selectedIndex :=
          Num (case find (\<lambda>p. id_playlist p = pid) (playlists s) of
                 None \<Rightarrow> 0
               | Some p \<Rightarrow> int (length (songs p)))\<rparr>"

definition handleAddSongUrl :: "env \<Rightarrow> state \<Rightarrow> state" where
  "handleAddSongUrl e s =
     (case getYouTubeId e (urlInput s) of
        None \<Rightarrow> s
      | Some videoId \<Rightarrow>
          if truthy videoId
          then s\<lparr>tempSong := Some \<lparr>id_song = videoId, title = ''Song: '' @ videoId\<rparr>,
                 view := SelectPlaylistForSong,
                 urlInput := [],
                 selectedIndex := Num 0\<rparr>
          else s)"

definition handleCreatePlaylist :: "env \<Rightarrow> state \<Rightarrow> state" where
  "handleCreatePlaylist e s =
     (if truthy (trim (newPlaylistName s))
      then (let newPlaylist =
                  \<lparr>id_playlist = dateNow e, name = newPlaylistName s,
                   songs = (case tempSong s of None \<Rightarrow> [] | Some t \<Rightarrow> [t])\<rparr>;
                updatedPlaylists =
                  js_sort (\<lambda>a b. localeCompare e (name a) (name b))
                    (playlists s @ [newPlaylist]);
                s1 = s\<lparr>playlists := updatedPlaylists, newPlaylistName := [], tempSong := None\<rparr>
            in case tempSong s of
                 Some t \<Rightarrow>
                   s1\<lparr>activePlaylistId := Some (id_playlist newPlaylist),
                      view := PlaylistView,
                      selectedIndex := Num 0\<rparr>
               | None \<Rightarrow>
                   (let newIndex =
                          findIndex (\<lambda>p. id_playlist p = id_playlist newPlaylist) updatedPlaylists
                    in s1\<lparr>view := Playlists,
                          selectedIndex := Num (if newIndex \<ge> 0 then newIndex else 0)\<rparr>))
      else s)"

definition handleDeleteSong :: "state \<Rightarrow> state" where
  "handleDeleteSong s =
     (case activePlaylistId s of
        None \<Rightarrow> s
      | Some pid \<Rightarrow>
          (case selectedSongIndex s of
             None \<Rightarrow> s
           | Some i \<Rightarrow>
               s\<lparr>playlists :=
                    map (\<lambda>p. if id_playlist p = pid then p\<lparr>songs := spliceOut i (songs p)\<rparr> else p)
                      (playlists s),
                 view := PlaylistView,
                 selectedSongIndex := None,
                 selectedIndex := Num 0\<rparr>))"

definition handleDeletePlaylist :: "state \<Rightarrow> state" where
  "handleDeletePlaylist s =
     (if \<not> truthy_opt (playlistToDeleteId s) then s
      else s\<lparr>playlists := filter (\<lambda>p. Some (id_playlist p) \<noteq> playlistToDeleteId s) (playlists s),
             view := Playlists,
             playlistToDeleteId := None,
             selectedIndex := Num 0\<rparr>)"

text \<open>
  The Fisher-Yates loop of \<^verbatim>\<open>handleShufflePlaylist\<close>, for \<open>i\<close> from its first argument
  down to 1: \<open>j\<close> is \<^verbatim>\<open>Math.floor(Math.random() * (i + 1))\<close>, computed here on rationals,
  and the two elements are exchanged. \<^verbatim>\<open>Math.random()\<close> lies in \<open>[0, 1)\<close>, so \<open>j \<le> i\<close>;
  for any other draw the source would read \<^verbatim>\<open>undefined\<close> from the array and store it.
\<close>

fun fisherYates :: "nat \<Rightarrow> (nat \<Rightarrow> rat) \<Rightarrow> Song list \<Rightarrow> js_error + Song list" where
  "fisherYates 0 rnd xs = Inr xs"
| "fisherYates (Suc n) rnd xs =
     (let i = Suc n; j = \<lfloor>rnd 0 * (of_nat i + 1)\<rfloor> in
      if 0 \<le> j \<and> j < int (length xs) \<and> i < length xs
      then fisherYates n (\<lambda>k. rnd (Suc k)) (xs[i := xs ! nat j, nat j := xs ! i])
      else Inl UndefinedSong)"

text \<open>The loop starts at \<^verbatim>\<open>length - 1\<close> and does not run on an empty array.\<close>

definition shuffleSongs :: "(nat \<Rightarrow> rat) \<Rightarrow> Song list \<Rightarrow> js_error + Song list" where
  "shuffleSongs rnd xs = fisherYates (length xs - 1) rnd xs"

text \<open>
  \<^verbatim>\<open>prev.map(p => ...)\<close> of \<^verbatim>\<open>handleShufflePlaylist\<close>: every playlist with the given id
  is shuffled, each with the draws that follow those of the one before.
\<close>

fun shufflePlaylists :: "string \<Rightarrow> (nat \<Rightarrow> rat) \<Rightarrow> Playlist list \<Rightarrow> js_error + Playlist list" where
  "shufflePlaylists pid rnd [] = Inr []"
| "shufflePlaylists pid rnd (p # ps) =
     (if id_playlist p = pid
      then (case shuffleSongs rnd (songs p) of
              Inl err \<Rightarrow> Inl err
            | Inr ys \<Rightarrow>
                (case shufflePlaylists pid (\<lambda>k. rnd (k + (length (songs p) - 1))) ps of
                   Inl err \<Rightarrow> Inl err
                 | Inr qs \<Rightarrow> Inr (p\<lparr>songs := ys\<rparr> # qs)))
      else (case shufflePlaylists pid rnd ps of
              Inl err \<Rightarrow> Inl err
            | Inr qs \<Rightarrow> Inr (p # qs)))"

definition handleShufflePlaylist :: "env \<Rightarrow> state \<Rightarrow> js_error + state" where
  "handleShufflePlaylist e s =
     (case activePlaylistId s of
        None \<Rightarrow> Inr s
      | Some pid \<Rightarrow>
          if \<not> truthy pid then Inr s
          else (case shufflePlaylists pid (random e) (playlists s) of
                  Inl err \<Rightarrow> Inl err
                | Inr ps \<Rightarrow>
                    Inr (s\<lparr>playlists := ps,
                           nowPlaying := Some \<lparr>playlistId = Some pid, songIndex = Some 0\<rparr>,
                           view := NowPlayingView\<rparr>)))"

section \<open>Drag and drop reordering\<close>

definition handleDragStart :: "int \<Rightarrow> state \<Rightarrow> state" where
  "handleDragStart itemIndexInView s =
     s\<lparr>draggedItemIndex :=
          Some (itemIndexInView -
                (case activePlaylist s of
                   None \<Rightarrow> 0
                 | Some ap \<Rightarrow> if length (songs ap) > 0 then 1 else 0))\<rparr>"

text \<open>
  \<^verbatim>\<open>handleDragEnter\<close>. When the dragged index addresses no element, \<^verbatim>\<open>splice\<close> removes
  nothing and the source inserts \<^verbatim>\<open>undefined\<close>: the outcome \<open>UndefinedSong\<close>.
\<close>

definition handleDragEnter :: "int \<Rightarrow> state \<Rightarrow> js_error + state" where
  "handleDragEnter itemIndexInView s =
     (case draggedItemIndex s of
        None \<Rightarrow> Inr s
      | Some dragged \<Rightarrow>
          (case activePlaylist s of
             None \<Rightarrow> Inr s
           | Some ap \<Rightarrow>
               (let songIndex = itemIndexInView - (if length (songs ap) > 0 then 1 else 0) in
                if songIndex < 0 \<or> songIndex \<ge> int (length (songs ap))
                then Inr (s\<lparr>dragOverIndex := None\<rparr>)
                else if dragged = songIndex then Inr (s\<lparr>dragOverIndex := Some songIndex\<rparr>)
                else (let a = spliceStart (length (songs ap)) dragged in
                      if a < length (songs ap)
                      then (let removed = songs ap ! a;
                                newSongs = spliceIn songIndex removed (spliceOut dragged (songs ap))
                            in Inr (s\<lparr>dragOverIndex := Some songIndex,
                                      playlists :=
                                        map (\<lambda>p. if Some (id_playlist p) = activePlaylistId s
                                                 then p\<lparr>songs := newSongs\<rparr> else p)
                                          (playlists s),
                                      draggedItemIndex := Some songIndex\<rparr>))
                      else Inl UndefinedSong))))"

definition handleDragEnd :: "state \<Rightarrow> state" where
  "handleDragEnd s = s\<lparr>draggedItemIndex := None, dragOverIndex := None\<rparr>"

section \<open>The center button\<close>

definition handleMainMenuSelection :: "jsnum \<Rightarrow> state \<Rightarrow> state" where
  "handleMainMenuSelection index s =
     (let selectedMenu = js_index menuItems index;
          s1 = (if selectedMenu = Some ''Playlists'' then s\<lparr>view := Playlists\<rparr> else s);
          s2 = (if selectedMenu = Some ''Add YouTube URL'' then s1\<lparr>view := AddSong\<rparr> else s1);
          s3 = (if selectedMenu = Some ''Now Playing'' \<and> currentSong s \<noteq> None
                then s2\<lparr>view := NowPlayingView\<rparr> else s2)
      in s3\<lparr>selectedIndex := Num 0\<rparr>)"

text \<open>
  \<^verbatim>\<open>handlePlaylistsSelection\<close> reads \<^verbatim>\<open>.id\<close> of the indexed item without a test: a
  \<open>TypeError\<close> when the index addresses no item.
\<close>

definition handlePlaylistsSelection :: "jsnum \<Rightarrow> state \<Rightarrow> js_error + state" where
  "handlePlaylistsSelection index s =
     (case js_index (playlistMenuItems s) index of
        None \<Rightarrow> Inl TypeError
      | Some selectedPlaylistItem \<Rightarrow>
          Inr ((if id_playlist selectedPlaylistItem = ''CREATE_NEW''
                then s\<lparr>view := CreatePlaylistInput\<rparr>
                else s\<lparr>activePlaylistId := Some (id_playlist selectedPlaylistItem),
                       view := PlaylistView\<rparr>)
               \<lparr>selectedIndex := Num 0, playlistSearchQuery := []\<rparr>))"

definition handlePlaylistViewSelection :: "jsnum \<Rightarrow> state \<Rightarrow> state" where
  "handlePlaylistViewSelection index s =
     (case js_index (getPlaylistViewItems s) index of
        None \<Rightarrow> s\<lparr>selectedIndex := index\<rparr>
      | Some selectedItem \<Rightarrow>
          (if id_song selectedItem = ''SHUFFLE_PLAYLIST'' then s\<lparr>view := ShuffleConfirm\<rparr>
           else if id_song selectedItem = ''DELETE_PLAYLIST''
           then s\<lparr>playlistToDeleteId := activePlaylistId s, view := DeletePlaylistConfirm\<rparr>
           else (let songIndex =
                       (case activePlaylist s of
                          None \<Rightarrow> -1
                        | Some ap \<Rightarrow> findIndex (\<lambda>x. id_song x = id_song selectedItem) (songs ap))
                 in if songIndex > -1
                    then s\<lparr>selectedSongIndex := Some songIndex, view := SongMenu\<rparr>
                    else s))
          \<lparr>selectedIndex := Num 0\<rparr>)"

text \<open>
  \<^verbatim>\<open>handleSongMenuSelection\<close> builds the pointer from \<^verbatim>\<open>activePlaylistId!\<close> and
  \<^verbatim>\<open>selectedSongIndex!\<close>: the values as they are, null or not.
\<close>

definition handleSongMenuSelection :: "jsnum \<Rightarrow> state \<Rightarrow> state" where
  "handleSongMenuSelection index s =
     (if index = Num 0
      then s\<lparr>nowPlaying :=
               Some \<lparr>playlistId = activePlaylistId s, songIndex = selectedSongIndex s\<rparr>,
             view := NowPlayingView,
             selectedIndex := Num 0\<rparr>
      else s\<lparr>selectedIndex := Num 0\<rparr>)"

definition handleConfirmation :: "env \<Rightarrow> jsnum \<Rightarrow> state \<Rightarrow> js_error + state" where
  "handleConfirmation e index s =
     (let s1 = s\<lparr>selectedIndex := index\<rparr> in
      if index = Num 1
      then (case view s of
              DeleteSongConfirm \<Rightarrow> Inr (handleDeleteSong s1)
            | DeletePlaylistConfirm \<Rightarrow> Inr (handleDeletePlaylist s1)
            | ShuffleConfirm \<Rightarrow> handleShufflePlaylist e s1
            | _ \<Rightarrow> Inr s1)
      else Inr ((case view s of
                   DeleteSongConfirm \<Rightarrow> s1\<lparr>view := SongMenu\<rparr>
                 | DeletePlaylistConfirm \<Rightarrow> s1\<lparr>view := PlaylistView, playlistToDeleteId := None\<rparr>
                 | ShuffleConfirm \<Rightarrow> s1\<lparr>view := PlaylistView\<rparr>
                 | _ \<Rightarrow> s1)
                \<lparr>selectedIndex := Num 0\<rparr>))"

text \<open>
  \<^verbatim>\<open>handleSelectPlaylistForSongSelection\<close> reads \<^verbatim>\<open>.id\<close> of the indexed item without a
  test, as \<^verbatim>\<open>handlePlaylistsSelection\<close> does.
\<close>

definition handleSelectPlaylistForSongSelection :: "jsnum \<Rightarrow> state \<Rightarrow> js_error + state" where
  "handleSelectPlaylistForSongSelection index s =
     (case js_index (selectPlaylistItems s) index of
        None \<Rightarrow> Inl TypeError
      | Some selection \<Rightarrow>
          (let s1 = s\<lparr>selectedIndex := index\<rparr> in
           if id_playlist selection = ''new'' then Inr (s1\<lparr>view := CreatePlaylistInput\<rparr>)
           else (case tempSong s of
                   Some t \<Rightarrow> Inr (addSongToPlaylist (id_playlist selection) t s1)
                 | None \<Rightarrow> Inr s1)))"

definition handleNowPlayingSelection :: "env \<Rightarrow> jsnum \<Rightarrow> state \<Rightarrow> state" where
  "handleNowPlayingSelection e index s =
     (let s1 = s\<lparr>selectedIndex := index\<rparr>;
          selectedAction = js_index nowPlayingMenuItems index
      in if selectedAction = Some ''prev'' then handlePrevTrack e s1
         else if selectedAction = Some ''play-pause'' then handlePlayPause e s1
         else if selectedAction = Some ''next'' then handleNextTrack s1
         else if selectedAction = Some ''playback-mode''
         then s1\<lparr>playbackMode := (if playbackMode s = Video then Audio else Video)\<rparr>
         else if selectedAction = Some ''repeat-mode''
         then s1\<lparr>repeatMode :=
                  (if repeatMode s = Off then All else if repeatMode s = All then One else Off)\<rparr>
         else s1)"

definition handleCenterLongPress :: "state \<Rightarrow> state" where
  "handleCenterLongPress s =
     (if view s = PlaylistView
      then (case activePlaylist s of
              None \<Rightarrow> s
            | Some ap \<Rightarrow>
                (case js_index (getPlaylistViewItems s) (selectedIndex s) of
                   None \<Rightarrow> s
                 | Some selectedItem \<Rightarrow>
                     if id_song selectedItem \<noteq> ''SHUFFLE_PLAYLIST''
                        \<and> id_song selectedItem \<noteq> ''DELETE_PLAYLIST''
                     then (let songIndex =
                                 findIndex (\<lambda>x. id_song x = id_song selectedItem) (songs ap)
                           in if songIndex \<noteq> -1
                              then s\<lparr>selectedSongIndex := Some songIndex,
                                     view := DeleteSongConfirm,
                                     selectedIndex := Num 0\<rparr>
                              else s)
                     else s))
      else s)"

definition handleCenterClick :: "env \<Rightarrow> state \<Rightarrow> js_error + state" where
  "handleCenterClick e s =
     (case view s of
        MainMenu \<Rightarrow> Inr (handleMainMenuSelection (selectedIndex s) s)
      | Playlists \<Rightarrow> handlePlaylistsSelection (selectedIndex s) s
      | PlaylistView \<Rightarrow> Inr (handlePlaylistViewSelection (selectedIndex s) s)
      | SongMenu \<Rightarrow> Inr (handleSongMenuSelection (selectedIndex s) s)
      | DeleteSongConfirm \<Rightarrow> handleConfirmation e (selectedIndex s) s
      | DeletePlaylistConfirm \<Rightarrow> handleConfirmation e (selectedIndex s) s
      | ShuffleConfirm \<Rightarrow> handleConfirmation e (selectedIndex s) s
      | AddSong \<Rightarrow> Inr (handleAddSongUrl e s)
      | SelectPlaylistForSong \<Rightarrow> handleSelectPlaylistForSongSelection (selectedIndex s) s
      | CreatePlaylistInput \<Rightarrow> Inr (handleCreatePlaylist e s)
      | NowPlayingView \<Rightarrow> Inr (handleNowPlayingSelection e (selectedIndex s) s)
      | EditSongTitle \<Rightarrow> Inr s)"

section \<open>The five inputs of the click wheel\<close>

text \<open>
  The effect of lines 169 to 173 runs after a render in which the view or the search
  query has changed, and resets the selection when the view is the playlist list.
\<close>

definition resetSelectionEffect :: "state \<Rightarrow> state \<Rightarrow> state" where
  "resetSelectionEffect old new =
     (if (view new \<noteq> view old \<or> playlistSearchQuery new \<noteq> playlistSearchQuery old)
         \<and> view new = Playlists
      then new\<lparr>selectedIndex := Num 0\<rparr>
      else new)"

definition onNext :: "state \<Rightarrow> state" where
  "onNext s = resetSelectionEffect s (handleNext s)"

definition onPrev :: "state \<Rightarrow> state" where
  "onPrev s = resetSelectionEffect s (handlePrev s)"

definition onMenu :: "state \<Rightarrow> state" where
  "onMenu s = resetSelectionEffect s (handleMenu s)"

definition onCenterLongPress :: "state \<Rightarrow> state" where
  "onCenterLongPress s = resetSelectionEffect s (handleCenterLongPress s)"

text \<open>
  An exception leaves the state as it was: the only update queued before a throw sets
  the selection index to the value it already has.
\<close>

definition onCenter :: "env \<Rightarrow> state \<Rightarrow> js_error + state" where
  "onCenter e s =
     (case handleCenterClick e s of
        Inl err \<Rightarrow> Inl err
      | Inr s' \<Rightarrow> Inr (resetSelectionEffect s s'))"

datatype input = OnNext | OnPrev | OnCenter | OnCenterLongPress | OnMenu

definition step :: "env \<Rightarrow> state \<Rightarrow> input \<Rightarrow> js_error + state" where
  "step e s i =
     (case i of
        OnNext \<Rightarrow> Inr (onNext s)
      | OnPrev \<Rightarrow> Inr (onPrev s)
      | OnCenter \<Rightarrow> onCenter e s
      | OnCenterLongPress \<Rightarrow> Inr (onCenterLongPress s)
      | OnMenu \<Rightarrow> Inr (onMenu s))"

fun run :: "env \<Rightarrow> state \<Rightarrow> input list \<Rightarrow> js_error + state" where
  "run e s [] = Inr s"
| "run e s (i # is) = (case step e s i of Inl err \<Rightarrow> Inl err | Inr s' \<Rightarrow> run e s' is)"

text \<open>The state at startup, from the playlists read from local storage.\<close>

definition initialState :: "Playlist list \<Rightarrow> state" where
  "initialState ps =
     \<lparr>playlists = ps,
      view = (if length ps > 0 \<and> list_ex (\<lambda>p. length (songs p) > 0) ps then MainMenu else AddSong),
      activePlaylistId = None,
      nowPlaying = None,
      playbackMode = Video,
      repeatMode = Off,
      isPlaying = False,
      selectedIndex = Num 0,
      urlInput = [],
      tempSong = None,
      newPlaylistName = [],
      draggedItemIndex = None,
      dragOverIndex = None,
      selectedSongIndex = None,
      playlistToDeleteId = None,
      playlistSearchQuery = [],
      ytCalls = []\<rparr>"

section \<open>Events of the external player\<close>

text \<open>
  The effect of lines 268 to 313. After a render that shows the now-playing view with a
  current song (the only render that contains the element the player is attached to),
  \<^verbatim>\<open>setupPlayer\<close> creates the player if \<^verbatim>\<open>ytPlayer.current\<close> is not set, and registers as its
  \<^verbatim>\<open>onStateChange\<close> a function that calls the \<^verbatim>\<open>handleSongEnd\<close> of that render. When the
  player exists it only loads the current video: the \<^verbatim>\<open>onPlayerStateChange\<close> of a later
  render is never registered, and \<^verbatim>\<open>ytPlayer.current\<close> is never cleared. A session is the
  component state together with what the registered \<^verbatim>\<open>handleSongEnd\<close> has captured, if a
  player exists. The player API is taken to be loaded, and \<^verbatim>\<open>loadVideoById\<close> is not logged.
\<close>

record session =
  app :: state
  registered :: "captured option"

definition setupPlayer :: "session \<Rightarrow> session" where
  "setupPlayer x =
     (if view (app x) = NowPlayingView \<and> currentSong (app x) \<noteq> None \<and> registered x = None
      then x\<lparr>registered := Some (capture (app x))\<rparr>
      else x)"

datatype YtEvent = Ended | Playing | Paused

text \<open>
  An event of the player runs the registered function, and the effect runs again after
  the render that follows. Without a player there is no event.
\<close>

definition onPlayerStateChange :: "env \<Rightarrow> YtEvent \<Rightarrow> session \<Rightarrow> session" where
  "onPlayerStateChange e ev x =
     (case registered x of
        None \<Rightarrow> x
      | Some c \<Rightarrow>
          setupPlayer
            (x\<lparr>app :=
                 (case ev of
                    Ended \<Rightarrow> handleSongEnd e c (app x)
                  | Playing \<Rightarrow> (app x)\<lparr>isPlaying := True\<rparr>
                  | Paused \<Rightarrow> (app x)\<lparr>isPlaying := False\<rparr>)\<rparr>))"

definition onTrackEnded :: "env \<Rightarrow> session \<Rightarrow> session" where
  "onTrackEnded e x = onPlayerStateChange e Ended x"

section \<open>Properties that the claims speak of\<close>

text \<open>
  The length of the current view's item list: zero in the views that have none.
\<close>

definition itemCount :: "state \<Rightarrow> nat" where
  "itemCount s = (case navItems s of None \<Rightarrow> 0 | Some n \<Rightarrow> n)"

text \<open>
  The selection index is in range for the current view: \<open>0 \<le> index < max 1 N\<close>, with \<open>N\<close>
  the length of the view's item list, zero in the views that have none.
\<close>

definition indexInRange :: "state \<Rightarrow> bool" where
  "indexInRange s =
     (case selectedIndex s of
        NaN \<Rightarrow> False
      | Num i \<Rightarrow> 0 \<le> i \<and> i < int (max 1 (itemCount s)))"

text \<open>
  The center click is about to choose the "Create New Playlist" item of the
  select-playlist-for-song view while another item precedes it.
\<close>

definition choosesCreateNew :: "state \<Rightarrow> bool" where
  "choosesCreateNew s =
     (view s = SelectPlaylistForSong \<and> selectedIndex s \<noteq> Num 0
      \<and> (case js_index (selectPlaylistItems s) (selectedIndex s) of
            None \<Rightarrow> False
          | Some selection \<Rightarrow> id_playlist selection = ''new''))"


text \<open>
  What a shuffle of the playlists with id \<open>pid\<close> may turn playlist \<open>p\<close> into: the same id
  and name, the same songs counted with multiplicity, and nothing changed at all when
  the id of \<open>p\<close> is not \<open>pid\<close>.
\<close>

definition shuffled :: "string \<Rightarrow> Playlist \<Rightarrow> Playlist \<Rightarrow> bool" where
  "shuffled pid p q =
     (id_playlist q = id_playlist p \<and> name q = name p
      \<and> mset (songs q) = mset (songs p)
      \<and> (id_playlist p \<noteq> pid \<longrightarrow> q = p))"

text \<open>Playlist \<open>q\<close> has the id of \<open>p\<close>, and is \<open>p\<close> itself unless that id is \<open>pid\<close>.\<close>

definition unchangedExcept :: "string option \<Rightarrow> Playlist \<Rightarrow> Playlist \<Rightarrow> bool" where
  "unchangedExcept pid p q =
     (id_playlist q = id_playlist p \<and> (Some (id_playlist p) \<noteq> pid \<longrightarrow> q = p))"

section \<open>Concrete inputs of the scenarios\<close>

definition env0 :: env where
  "env0 =
     \<lparr>getYouTubeId =
        (\<lambda>u. if u = ''https://www.youtube.com/watch?v=abc123'' then Some ''abc123'' else None),
      dateNow = ''1700000000000'',
      random = (\<lambda>k. 1 / 2),
      ytPlayer = True,
      isPlayerReady = False,
      getCurrentTime = 0,
      playerStatePlaying = False,
      localeCompare = foldedCompare\<rparr>"

definition song0 :: Song where
  "song0 = \<lparr>id_song = ''v0'', title = ''Song: v0''\<rparr>"

definition song1 :: Song where
  "song1 = \<lparr>id_song = ''v1'', title = ''Song: v1''\<rparr>"

definition song2 :: Song where
  "song2 = \<lparr>id_song = ''v2'', title = ''Song: v2''\<rparr>"

definition song3 :: Song where
  "song3 = \<lparr>id_song = ''v3'', title = ''Song: v3''\<rparr>"

definition playlistA :: Playlist where
  "playlistA = \<lparr>id_playlist = ''1'', name = ''A'', songs = [song0]\<rparr>"

definition playlistZ :: Playlist where
  "playlistZ = \<lparr>id_playlist = ''2'', name = ''z'', songs = []\<rparr>"

text \<open>The create-playlist-input view with a staged song and a name of two spaces.\<close>

definition blankNameState :: state where
  "blankNameState =
     (initialState [playlistA, playlistZ])
       \<lparr>view := CreatePlaylistInput, tempSong := Some song1, newPlaylistName := ''  ''\<rparr>"

text \<open>The add-song view with the URL of the scenario typed in.\<close>

definition urlTypedState :: state where
  "urlTypedState =
     (initialState [])\<lparr>urlInput := ''https://www.youtube.com/watch?v=abc123''\<rparr>"

definition playlist3 :: Playlist where
  "playlist3 = \<lparr>id_playlist = ''3'', name = ''Mix'', songs = [song0, song1, song2]\<rparr>"

text \<open>The playlist-contents view of \<open>playlist3\<close> (five items), the second item selected.\<close>

definition contentsState :: state where
  "contentsState =
     (initialState [playlistA, playlist3])
       \<lparr>view := PlaylistView, activePlaylistId := Some ''3'', selectedIndex := Num 1\<rparr>"

text \<open>Playing track \<open>i\<close> of the three tracks of \<open>playlist3\<close> in repeat mode \<open>m\<close>.\<close>

definition trackState :: "RepeatMode \<Rightarrow> int \<Rightarrow> state" where
  "trackState m i =
     (initialState [playlistA, playlist3])
       \<lparr>view := NowPlayingView,
        nowPlaying := Some \<lparr>playlistId = Some ''3'', songIndex = Some i\<rparr>,
        repeatMode := m,
        isPlaying := True\<rparr>"

text \<open>The shuffle confirmation of \<open>playlist3\<close>, with "Yes" selected.\<close>

definition shuffleState :: state where
  "shuffleState =
     (initialState [playlistA, playlist3])
       \<lparr>view := ShuffleConfirm, activePlaylistId := Some ''3'', selectedIndex := Num 1\<rparr>"

text \<open>A playlist of four songs, shown in the playlist-contents view, and the state after the
  drag of its first song has started (the shuffle item is at item index 0).\<close>

definition playlist4 :: Playlist where
  "playlist4 = \<lparr>id_playlist = ''4'', name = ''Four'', songs = [song0, song1, song2, song3]\<rparr>"

definition dragState :: state where
  "dragState =
     handleDragStart 1
       ((initialState [playlistA, playlist4])\<lparr>view := PlaylistView, activePlaylistId := Some ''4''\<rparr>)"

text \<open>Playlists named "A" and "z" exist, and the name "B" is typed for a new one.\<close>

definition createBState :: state where
  "createBState =
     (initialState [playlistA, playlistZ])\<lparr>view := CreatePlaylistInput, newPlaylistName := ''B''\<rparr>"

text \<open>
  The select-playlist-for-song view with a staged song and the first playlist (one song)
  selected, and the state that the center click leads to.
\<close>

definition addState :: state where
  "addState =
     (initialState [playlistA, playlistZ])\<lparr>view := SelectPlaylistForSong, tempSong := Some song1\<rparr>"

definition addedState :: state where
  "addedState =
     (initialState [playlistA\<lparr>songs := [song0, song1]\<rparr>, playlistZ])
       \<lparr>view := PlaylistView, activePlaylistId := Some ''1'', selectedIndex := Num 1\<rparr>"


text \<open>
  A run from startup with the playlists "A" (one song) and "z" (empty): play the song of
  "A", go back to the playlist list, open "z" and delete it, go back to the root menu,
  enter now-playing, and press menu. The active playlist id still names the deleted
  playlist, so the playlist-contents view that is reached has no items.
\<close>

definition danglingInputs :: "input list" where
  "danglingInputs =
     [OnCenter, OnCenter, OnNext, OnCenter, OnCenter, OnMenu, OnMenu, OnNext, OnCenter,
      OnCenter, OnNext, OnCenter, OnMenu, OnNext, OnNext, OnCenter, OnMenu]"

definition danglingState :: state where
  "danglingState =
     (initialState [playlistA])
       \<lparr>view := PlaylistView,
        activePlaylistId := Some ''2'',
        nowPlaying := Some \<lparr>playlistId = Some ''1'', songIndex = Some 0\<rparr>,
        selectedSongIndex := Some 0\<rparr>"

text \<open>
  The add-song view with the two playlists and the URL typed in; the inputs that stage
  the song and move the selection to "Create New Playlist", the third item; the state
  they lead to; and the state after the center click on that item.
\<close>

definition urlFieldState :: state where
  "urlFieldState =
     (initialState [playlistA, playlistZ])
       \<lparr>view := AddSong, urlInput := ''https://www.youtube.com/watch?v=abc123''\<rparr>"

definition createNewInputs :: "input list" where
  "createNewInputs = [OnCenter, OnNext, OnNext]"

definition chooseNewState :: state where
  "chooseNewState =
     (initialState [playlistA, playlistZ])
       \<lparr>view := SelectPlaylistForSong,
        tempSong := Some \<lparr>id_song = ''abc123'', title = ''Song: abc123''\<rparr>,
        selectedIndex := Num 2\<rparr>"

definition createNewState :: state where
  "createNewState = chooseNewState\<lparr>view := CreatePlaylistInput\<rparr>"

text \<open>Playlists named "a" and "Z" exist, and the name "B" is typed for a new one.\<close>

definition playlistLowerA :: Playlist where
  "playlistLowerA = \<lparr>id_playlist = ''5'', name = ''a'', songs = []\<rparr>"

definition playlistUpperZ :: Playlist where
  "playlistUpperZ = \<lparr>id_playlist = ''6'', name = ''Z'', songs = [song0]\<rparr>"

definition createMixedState :: state where
  "createMixedState =
     (initialState [playlistLowerA, playlistUpperZ])
       \<lparr>view := CreatePlaylistInput, newPlaylistName := ''B''\<rparr>"

text \<open>
  The player is created while the first of the three tracks of \<open>playlist3\<close> plays with
  repeat off.
\<close>

definition playerSession :: session where
  "playerSession = setupPlayer \<lparr>app = trackState Off 0, registered = None\<rparr>"

section \<open>Creating a playlist with a blank name\<close>

lemma trim_two_spaces: "trim ''  '' = []"
  by (simp add: trim_def isWhiteSpace_def)

text \<open>
  Claim C8. Submitting, in the create-playlist-input view, a name that is empty after
  trimming changes nothing: the center click returns the state it was given, so the
  playlists, the view, the staged song and the input fields are all as before.
\<close>

theorem blank_name_is_noop:
  assumes "view s = CreatePlaylistInput" and "trim (newPlaylistName s) = []"
  shows "onCenter e s = Inr s \<and> handleCreatePlaylist e s = s"
  using assms
  by (simp add: onCenter_def handleCenterClick_def handleCreatePlaylist_def truthy_def
      resetSelectionEffect_def)

theorem blank_name_is_noop_witness:
  "view blankNameState = CreatePlaylistInput
   \<and> trim (newPlaylistName blankNameState) = []
   \<and> tempSong blankNameState = Some song1
   \<and> onCenter env0 blankNameState = Inr blankNameState
   \<and> handleCreatePlaylist env0 blankNameState = blankNameState"
  using blank_name_is_noop [of blankNameState env0]
  by (simp add: blankNameState_def trim_two_spaces)

section \<open>Staging a song from a URL\<close>

text \<open>
  Claim C10. In the add-song view, when the resolver maps the typed text to an
  identifier \<open>v\<close> (a non-empty string: the source tests the result for truthiness), the
  center click stages the song whose id is \<open>v\<close> and whose title is \<open>''Song: ''\<close> followed
  by \<open>v\<close>, and shows the select-playlist-for-song view.
\<close>

theorem staged_song_title:
  assumes "view s = AddSong" and "getYouTubeId e (urlInput s) = Some v" and "v \<noteq> []"
  shows "\<exists>s'. onCenter e s = Inr s'
            \<and> tempSong s' = Some \<lparr>id_song = v, title = ''Song: '' @ v\<rparr>
            \<and> view s' = SelectPlaylistForSong"
  using assms
  by (simp add: onCenter_def handleCenterClick_def handleAddSongUrl_def truthy_def
      resetSelectionEffect_def)

theorem staged_song_title_witness:
  "view urlTypedState = AddSong
   \<and> getYouTubeId env0 (urlInput urlTypedState) = Some ''abc123''
   \<and> (\<exists>s'. onCenter env0 urlTypedState = Inr s'
          \<and> tempSong s' = Some \<lparr>id_song = ''abc123'', title = ''Song: abc123''\<rparr>
          \<and> view s' = SelectPlaylistForSong)"
  using staged_song_title [of urlTypedState env0 "''abc123''"]
  by (simp add: urlTypedState_def initialState_def env0_def)

section \<open>Circular navigation\<close>

lemma js_rem_nonneg: "0 \<le> a \<Longrightarrow> 0 < b \<Longrightarrow> js_rem a b = a mod b"
  by (cases "a = 0") (simp_all add: js_rem_def)

lemma navItems_selectedIndex [simp]: "navItems (s\<lparr>selectedIndex := x\<rparr>) = navItems s"
  by (cases "view s")
     (simp_all add: navItems_def playlistMenuItems_def playlistItems_def getPlaylistViewItems_def
      selectPlaylistItems_def activePlaylist_def)

lemma resetSelectionEffect_same_view:
  "view s' = view s \<Longrightarrow> playlistSearchQuery s' = playlistSearchQuery s \<Longrightarrow>
   resetSelectionEffect s s' = s'"
  by (simp add: resetSelectionEffect_def)

lemma onNext_eq: "onNext s = handleNext s"
  by (simp add: onNext_def handleNext_def navigate_def resetSelectionEffect_same_view
      split: option.splits)

lemma onPrev_eq: "onPrev s = handlePrev s"
  by (simp add: onPrev_def handlePrev_def navigate_def resetSelectionEffect_same_view
      split: option.splits)

lemma onNext_in_range:
  assumes "navItems s = Some n" "0 < n" "selectedIndex s = Num i" "0 \<le> i" "i < int n"
  shows "onNext s = s\<lparr>selectedIndex := Num ((i + 1) mod int n)\<rparr>"
  using assms by (simp add: onNext_eq handleNext_def navigate_def navigateIndex_def js_rem_nonneg)

lemma onPrev_in_range:
  assumes "navItems s = Some n" "0 < n" "selectedIndex s = Num i" "0 \<le> i" "i < int n"
  shows "onPrev s = s\<lparr>selectedIndex := Num ((i - 1) mod int n)\<rparr>"
  using assms by (simp add: onPrev_eq handlePrev_def navigate_def navigateIndex_def js_rem_nonneg)

lemma onNext_iterate:
  assumes "navItems s = Some n" "0 < n" "selectedIndex s = Num i" "0 \<le> i" "i < int n"
  shows "(onNext ^^ k) s = s\<lparr>selectedIndex := Num ((i + int k) mod int n)\<rparr>"
proof (induction k)
  case 0
  from assms have "s\<lparr>selectedIndex := Num (i mod int n)\<rparr> = s" by simp
  then show ?case by simp
next
  case (Suc k)
  let ?t = "s\<lparr>selectedIndex := Num ((i + int k) mod int n)\<rparr>"
  have "onNext ?t = ?t\<lparr>selectedIndex := Num (((i + int k) mod int n + 1) mod int n)\<rparr>"
    using assms by (intro onNext_in_range) simp_all
  then show ?case using Suc by (simp add: mod_simps algebra_simps)
qed

lemma onPrev_iterate:
  assumes "navItems s = Some n" "0 < n" "selectedIndex s = Num i" "0 \<le> i" "i < int n"
  shows "(onPrev ^^ k) s = s\<lparr>selectedIndex := Num ((i - int k) mod int n)\<rparr>"
proof (induction k)
  case 0
  from assms have "s\<lparr>selectedIndex := Num (i mod int n)\<rparr> = s" by simp
  then show ?case by simp
next
  case (Suc k)
  let ?t = "s\<lparr>selectedIndex := Num ((i - int k) mod int n)\<rparr>"
  have "onPrev ?t = ?t\<lparr>selectedIndex := Num (((i - int k) mod int n - 1) mod int n)\<rparr>"
    using assms by (intro onPrev_in_range) simp_all
  then show ?case using Suc by (simp add: mod_simps algebra_simps)
qed

lemma next_then_prev:
  assumes "navItems s = Some n" "0 < n" "selectedIndex s = Num i" "0 \<le> i" "i < int n"
  shows "onPrev (onNext s) = s"
proof -
  let ?t = "s\<lparr>selectedIndex := Num ((i + 1) mod int n)\<rparr>"
  have "onPrev ?t = ?t\<lparr>selectedIndex := Num (((i + 1) mod int n - 1) mod int n)\<rparr>"
    using assms by (intro onPrev_in_range) simp_all
  moreover have "((i + 1) mod int n - 1) mod int n = i" using assms by (simp add: mod_simps)
  ultimately show ?thesis using assms by (simp add: onNext_in_range)
qed

text \<open>
  Claim C2. In every view, from a selection index that is valid for the view's item
  list of length \<open>N\<close>, \<open>N\<close> times \<open>onNext\<close> followed by \<open>N\<close> times \<open>onPrev\<close>, and likewise
  \<open>N\<close> times the pair \<open>onNext\<close> then \<open>onPrev\<close>, give back the state they started from, and
  with it the original selection index.
\<close>

theorem navigation_round_trip:
  assumes "selectedIndex s = Num i" and "0 \<le> i" and "i < int (max 1 (itemCount s))"
  shows "(onPrev ^^ itemCount s) ((onNext ^^ itemCount s) s) = s
       \<and> ((onPrev \<circ> onNext) ^^ itemCount s) s = s
       \<and> selectedIndex ((onPrev ^^ itemCount s) ((onNext ^^ itemCount s) s)) = Num i
       \<and> selectedIndex (((onPrev \<circ> onNext) ^^ itemCount s) s) = Num i"
proof (cases "itemCount s = 0")
  case True
  then show ?thesis using assms by simp
next
  case False
  then obtain n where n: "navItems s = Some n" "0 < n" "itemCount s = n"
    by (auto simp: itemCount_def split: option.splits)
  with assms have i: "i < int n" by simp
  have a: "(onNext ^^ n) s = s"
    using onNext_iterate [OF n(1,2) assms(1,2) i, of n] assms(1,2) i by simp
  have b: "(onPrev ^^ n) s = s"
    using onPrev_iterate [OF n(1,2) assms(1,2) i, of n] assms(1,2) i by simp
  have c: "onPrev (onNext s) = s"
    using next_then_prev [OF n(1,2) assms(1,2) i] .
  have d: "((onPrev \<circ> onNext) ^^ k) s = s" for k
    by (induction k) (simp_all add: c)
  show ?thesis using a b d assms n by simp
qed

lemma itemCount_contentsState: "itemCount contentsState = 5"
  by (simp add: itemCount_def navItems_def contentsState_def initialState_def
      getPlaylistViewItems_def activePlaylist_def playlistA_def playlist3_def)

theorem navigation_round_trip_witness:
  "selectedIndex contentsState = Num 1
   \<and> itemCount contentsState = 5
   \<and> (onPrev ^^ 5) ((onNext ^^ 5) contentsState) = contentsState
   \<and> ((onPrev \<circ> onNext) ^^ 5) contentsState = contentsState"
proof -
  have i: "selectedIndex contentsState = Num 1" by (simp add: contentsState_def)
  show ?thesis
    using navigation_round_trip [of contentsState 1] i
    by (simp add: itemCount_contentsState)
qed

section \<open>The end of a track\<close>

text \<open>
  What \<^verbatim>\<open>handleSongEnd\<close> does, in terms of the values \<open>c\<close> it has captured, when the
  captured pointer addresses song \<open>i\<close> of a captured playlist of length \<open>L\<close>: in repeat
  mode one the pointer and the playing flag of the state are left and the player, when
  set, is told to seek to 0 and play; in repeat mode all the pointer is set to the
  captured one with index \<open>(i + 1) mod L\<close>; in repeat mode off it is set to the captured
  one with index \<open>i + 1\<close> if \<open>i + 1 < L\<close>, and otherwise only \<open>isPlaying\<close> becomes false.
\<close>

lemma song_end_policy:
  assumes "nowPlaying_c c = Some np"
    and "find (\<lambda>p. Some (id_playlist p) = playlistId np) (playlists_c c) = Some pl"
    and "songIndex np = Some i" and "0 \<le> i" and "i < int (length (songs pl))"
  shows "(repeatMode_c c = One \<longrightarrow>
            nowPlaying (handleSongEnd e c s) = nowPlaying s
          \<and> isPlaying (handleSongEnd e c s) = isPlaying s
          \<and> ytCalls (handleSongEnd e c s)
              = ytCalls s @ (if ytPlayer e then [SeekTo 0, PlayVideo] else []))
       \<and> (repeatMode_c c = All \<longrightarrow>
            handleSongEnd e c s =
              s\<lparr>nowPlaying :=
                   Some (np\<lparr>songIndex := Some ((i + 1) mod int (length (songs pl)))\<rparr>)\<rparr>)
       \<and> (repeatMode_c c = Off \<and> i + 1 < int (length (songs pl)) \<longrightarrow>
            handleSongEnd e c s = s\<lparr>nowPlaying := Some (np\<lparr>songIndex := Some (i + 1)\<rparr>)\<rparr>)
       \<and> (repeatMode_c c = Off \<and> i + 1 = int (length (songs pl)) \<longrightarrow>
            handleSongEnd e c s = s\<lparr>isPlaying := False\<rparr>)"
  using assms by (auto simp: handleSongEnd_def ytCall_def js_rem_nonneg toNumber_def Let_def)

lemma trackState_simps:
  "nowPlaying (trackState m i) = Some \<lparr>playlistId = Some ''3'', songIndex = Some i\<rparr>"
  "playlists (trackState m i) = [playlistA, playlist3]"
  "repeatMode (trackState m i) = m"
  "isPlaying (trackState m i)"
  "view (trackState m i) = NowPlayingView"
  by (simp_all add: trackState_def initialState_def)

lemma currentSong_trackState: "currentSong (trackState m 0) = Some song0"
  by (simp add: currentSong_def trackState_def initialState_def js_at_nullable_def js_at_def
      playlistA_def playlist3_def)

lemma registered_playerSession: "registered playerSession = Some (capture (trackState Off 0))"
  by (simp add: playerSession_def setupPlayer_def trackState_simps currentSong_trackState)

lemma app_playerSession: "app playerSession = trackState Off 0"
  by (simp add: playerSession_def setupPlayer_def)

lemma stale_handleSongEnd:
  assumes "nowPlaying s = Some \<lparr>playlistId = Some ''3'', songIndex = Some i\<rparr>"
  shows "handleSongEnd env0 (capture (trackState Off 0)) s
         = s\<lparr>nowPlaying := Some \<lparr>playlistId = Some ''3'', songIndex = Some 1\<rparr>\<rparr>"
  by (simp add: handleSongEnd_def capture_def trackState_simps toNumber_def Let_def
      playlistA_def playlist3_def)

lemma onTrackEnded_stale:
  assumes "registered x = Some (capture (trackState Off 0))"
    and "nowPlaying (app x) = Some \<lparr>playlistId = Some ''3'', songIndex = Some i\<rparr>"
  shows "onTrackEnded env0 x
         = x\<lparr>app := (app x)\<lparr>nowPlaying := Some \<lparr>playlistId = Some ''3'', songIndex = Some 1\<rparr>\<rparr>\<rparr>"
  using assms
  by (simp add: onTrackEnded_def onPlayerStateChange_def setupPlayer_def
      stale_handleSongEnd [OF assms(2)])

text \<open>
  Claim C4, evaluated at the track-ended event. The player is created while track 0 of
  three plays with repeat off, and the function it registered is the one every later
  event runs. The first event sets the index to 1. The second event finds index 1 in the
  state, but the registered function still reads index 0 and sets 1 again, where the
  claim has 2. Likewise, once the user has moved to track 2 and chosen repeat all, the
  event sets index 1, where the claim wraps to 0; the function of the current render
  (\<open>capture\<close> of the current state) would give 2 and 0.
\<close>

theorem track_ended_reads_stale_values:
  "registered playerSession = Some (capture (trackState Off 0))
   \<and> nowPlaying (app playerSession) = Some \<lparr>playlistId = Some ''3'', songIndex = Some 0\<rparr>
   \<and> nowPlaying (app (onTrackEnded env0 playerSession))
       = Some \<lparr>playlistId = Some ''3'', songIndex = Some 1\<rparr>
   \<and> nowPlaying (app (onTrackEnded env0 (onTrackEnded env0 playerSession)))
       = Some \<lparr>playlistId = Some ''3'', songIndex = Some 1\<rparr>
   \<and> nowPlaying (handleSongEnd env0 (capture (trackState Off 1)) (trackState Off 1))
       = Some \<lparr>playlistId = Some ''3'', songIndex = Some 2\<rparr>
   \<and> nowPlaying (app (onTrackEnded env0 (playerSession\<lparr>app := trackState All 2\<rparr>)))
       = Some \<lparr>playlistId = Some ''3'', songIndex = Some 1\<rparr>
   \<and> nowPlaying (handleSongEnd env0 (capture (trackState All 2)) (trackState All 2))
       = Some \<lparr>playlistId = Some ''3'', songIndex = Some 0\<rparr>"
proof -
  have 0: "nowPlaying (app playerSession) = Some \<lparr>playlistId = Some ''3'', songIndex = Some 0\<rparr>"
    by (simp add: app_playerSession trackState_simps)
  note 1 = onTrackEnded_stale [OF registered_playerSession 0]
  let ?x1 = "onTrackEnded env0 playerSession"
  have r1: "registered ?x1 = Some (capture (trackState Off 0))"
    by (simp add: 1 registered_playerSession)
  have n1: "nowPlaying (app ?x1) = Some \<lparr>playlistId = Some ''3'', songIndex = Some 1\<rparr>"
    by (simp add: 1)
  have n2: "nowPlaying (app (onTrackEnded env0 ?x1))
            = Some \<lparr>playlistId = Some ''3'', songIndex = Some 1\<rparr>"
    by (simp add: onTrackEnded_stale [OF r1 n1])
  let ?y = "playerSession\<lparr>app := trackState All 2\<rparr>"
  have ry: "registered ?y = Some (capture (trackState Off 0))"
    by (simp add: registered_playerSession)
  have ny: "nowPlaying (app ?y) = Some \<lparr>playlistId = Some ''3'', songIndex = Some 2\<rparr>"
    by (simp add: trackState_simps)
  have n3: "nowPlaying (app (onTrackEnded env0 ?y))
            = Some \<lparr>playlistId = Some ''3'', songIndex = Some 1\<rparr>"
    by (simp add: onTrackEnded_stale [OF ry ny])
  have 4: "nowPlaying (handleSongEnd env0 (capture (trackState Off 1)) (trackState Off 1))
           = Some \<lparr>playlistId = Some ''3'', songIndex = Some 2\<rparr>"
    by (simp add: handleSongEnd_def capture_def trackState_simps toNumber_def Let_def
        playlistA_def playlist3_def)
  have 5: "nowPlaying (handleSongEnd env0 (capture (trackState All 2)) (trackState All 2))
           = Some \<lparr>playlistId = Some ''3'', songIndex = Some 0\<rparr>"
    by (simp add: handleSongEnd_def capture_def trackState_simps toNumber_def js_rem_def Let_def
        playlistA_def playlist3_def)
  show ?thesis by (intro conjI registered_playerSession 0 n1 n2 n3 4 5)
qed

section \<open>Shuffling a playlist\<close>

lemma random_index_bounds:
  fixes r :: rat
  assumes "0 \<le> r" "r < 1"
  shows "0 \<le> \<lfloor>r * (of_nat i + 1)\<rfloor>" and "\<lfloor>r * (of_nat i + 1)\<rfloor> < int i + 1"
proof -
  show "0 \<le> \<lfloor>r * (of_nat i + 1)\<rfloor>" using assms by simp
  have "r * (of_nat i + 1) < 1 * (of_nat i + 1)"
    using assms by (intro mult_strict_right_mono) simp_all
  then have "r * (of_nat i + 1) < of_int (int i + 1)" by simp
  then show "\<lfloor>r * (of_nat i + 1)\<rfloor> < int i + 1" by (simp only: floor_less_iff)
qed

lemma fisherYates_permutes:
  assumes "\<forall>k. 0 \<le> rnd k \<and> rnd k < 1" and "n < length xs \<or> n = 0"
  shows "\<exists>ys. fisherYates n rnd xs = Inr ys \<and> mset ys = mset xs"
  using assms
proof (induction n arbitrary: rnd xs)
  case 0
  then show ?case by simp
next
  case (Suc n)
  let ?j = "\<lfloor>rnd 0 * (of_nat (Suc n) + 1)\<rfloor>"
  from Suc.prems have r: "0 \<le> rnd 0" "rnd 0 < 1" and len: "Suc n < length xs" by auto
  have j: "0 \<le> ?j" "?j < int (Suc n) + 1"
    using random_index_bounds [OF r, of "Suc n"] by blast+
  with len have jlen: "nat ?j < length xs" by linarith
  let ?zs = "xs[Suc n := xs ! nat ?j, nat ?j := xs ! Suc n]"
  have "mset ?zs = mset xs" using len jlen by (simp add: mset_swap)
  moreover have "\<exists>ys. fisherYates n (\<lambda>k. rnd (Suc k)) ?zs = Inr ys \<and> mset ys = mset ?zs"
    using Suc.prems len by (intro Suc.IH) auto
  moreover have "fisherYates (Suc n) rnd xs = fisherYates n (\<lambda>k. rnd (Suc k)) ?zs"
    using j jlen len by (simp add: Let_def)
  ultimately show ?case by auto
qed

lemma shuffleSongs_permutes:
  assumes "\<forall>k. 0 \<le> rnd k \<and> rnd k < 1"
  shows "\<exists>ys. shuffleSongs rnd xs = Inr ys \<and> mset ys = mset xs"
  unfolding shuffleSongs_def
  by (rule fisherYates_permutes [OF assms]) (cases xs, simp_all)

lemma shufflePlaylists_permutes:
  assumes "\<forall>k. 0 \<le> rnd k \<and> rnd k < 1"
  shows "\<exists>qs. shufflePlaylists pid rnd ps = Inr qs \<and> list_all2 (shuffled pid) ps qs"
  using assms
proof (induction ps arbitrary: rnd)
  case Nil
  then show ?case by simp
next
  case (Cons p ps)
  show ?case
  proof (cases "id_playlist p = pid")
    case True
    obtain ys where ys: "shuffleSongs rnd (songs p) = Inr ys" "mset ys = mset (songs p)"
      using shuffleSongs_permutes [OF Cons.prems] by blast
    let ?rnd = "\<lambda>k. rnd (k + (length (songs p) - 1))"
    have "\<forall>k. 0 \<le> ?rnd k \<and> ?rnd k < 1" using Cons.prems by simp
    from Cons.IH [OF this] obtain qs where
      qs: "shufflePlaylists pid ?rnd ps = Inr qs" "list_all2 (shuffled pid) ps qs" by blast
    have "shuffled pid p (p\<lparr>songs := ys\<rparr>)" using ys(2) True by (simp add: shuffled_def)
    then show ?thesis using True ys(1) qs by simp
  next
    case False
    from Cons.IH [OF Cons.prems] obtain qs where
      qs: "shufflePlaylists pid rnd ps = Inr qs" "list_all2 (shuffled pid) ps qs" by blast
    have "shuffled pid p p" by (simp add: shuffled_def)
    then show ?thesis using False qs by simp
  qed
qed

lemma find_shuffled:
  assumes "list_all2 (shuffled pid) ps qs"
    and "find (\<lambda>p. id_playlist p = x) ps = Some p"
  shows "\<exists>q. find (\<lambda>p. id_playlist p = x) qs = Some q \<and> shuffled pid p q"
  using assms
  by (induction ps qs rule: list_all2_induct) (auto simp: shuffled_def split: if_splits)

text \<open>
  Claim C3. With an active playlist whose id is a non-empty string, and draws of the
  random source in \<open>[0, 1)\<close>, \<open>handleShufflePlaylist\<close> returns a state in which the
  active playlist holds a permutation of its former songs (the same multiset of songs and
  of song ids, the same length), every playlist with another id is unchanged, the
  now-playing pointer is (active playlist id, 0) and the view is now-playing. The
  permuted order is the one stored in the playlist collection.
\<close>

theorem shuffle_permutes:
  assumes "activePlaylist s = Some ap" and "activePlaylistId s = Some pid" and "pid \<noteq> []"
    and "\<forall>k. 0 \<le> random e k \<and> random e k < 1"
  shows "\<exists>s' ap'. handleShufflePlaylist e s = Inr s'
           \<and> activePlaylist s' = Some ap'
           \<and> mset (songs ap') = mset (songs ap)
           \<and> mset (map id_song (songs ap')) = mset (map id_song (songs ap))
           \<and> length (songs ap') = length (songs ap)
           \<and> list_all2 (shuffled pid) (playlists s) (playlists s')
           \<and> nowPlaying s' = Some \<lparr>playlistId = Some pid, songIndex = Some 0\<rparr>
           \<and> view s' = NowPlayingView"
proof -
  obtain qs where qs: "shufflePlaylists pid (random e) (playlists s) = Inr qs"
      "list_all2 (shuffled pid) (playlists s) qs"
    using shufflePlaylists_permutes [OF assms(4)] by blast
  let ?s' = "s\<lparr>playlists := qs, nowPlaying := Some \<lparr>playlistId = Some pid, songIndex = Some 0\<rparr>,
               view := NowPlayingView\<rparr>"
  have run: "handleShufflePlaylist e s = Inr ?s'"
    using assms(2,3) qs(1) by (simp add: handleShufflePlaylist_def truthy_def)
  have "find (\<lambda>p. id_playlist p = pid) (playlists s) = Some ap"
    using assms(1,2) by (simp add: activePlaylist_def)
  from find_shuffled [OF qs(2) this] obtain ap' where
    ap': "find (\<lambda>p. id_playlist p = pid) qs = Some ap'" "shuffled pid ap ap'" by blast
  have act: "activePlaylist ?s' = Some ap'"
    using ap'(1) assms(2) by (simp add: activePlaylist_def)
  have m: "mset (songs ap') = mset (songs ap)" using ap'(2) by (simp add: shuffled_def)
  have "mset (map id_song (songs ap')) = mset (map id_song (songs ap))"
    using m by (metis mset_map)
  moreover have "length (songs ap') = length (songs ap)"
    using m by (metis size_mset)
  ultimately show ?thesis using run act m qs(2) by auto
qed

lemma floor_three_halves: "\<lfloor>(3::rat) / 2\<rfloor> = 1"
  by (simp add: floor_eq_iff)

lemma shuffle_of_shuffleState: "handleShufflePlaylist env0 shuffleState = Inr (shuffleState\<lparr>playlists := [playlistA, playlist3\<lparr>songs := [song0, song2, song1]\<rparr>],
   nowPlaying := Some \<lparr>playlistId = Some ''3'', songIndex = Some 0\<rparr>, view := NowPlayingView\<rparr>)"
  by (simp add: handleShufflePlaylist_def shuffleState_def initialState_def truthy_def env0_def playlistA_def playlist3_def shuffleSongs_def Let_def numeral_2_eq_2 floor_three_halves)

theorem shuffle_permutes_witness:
  "activePlaylist shuffleState = Some playlist3
   \<and> (\<forall>k. 0 \<le> random env0 k \<and> random env0 k < 1)
   \<and> handleShufflePlaylist env0 shuffleState =
        Inr (shuffleState
              \<lparr>playlists := [playlistA, playlist3\<lparr>songs := [song0, song2, song1]\<rparr>],
               nowPlaying := Some \<lparr>playlistId = Some ''3'', songIndex = Some 0\<rparr>,
               view := NowPlayingView\<rparr>)
   \<and> (\<exists>s' ap'. handleShufflePlaylist env0 shuffleState = Inr s'
           \<and> activePlaylist s' = Some ap'
           \<and> mset (songs ap') = mset (songs playlist3)
           \<and> list_all2 (shuffled ''3'') (playlists shuffleState) (playlists s')
           \<and> nowPlaying s' = Some \<lparr>playlistId = Some ''3'', songIndex = Some 0\<rparr>
           \<and> view s' = NowPlayingView)"
proof -
  have a: "activePlaylist shuffleState = Some playlist3"
    by (simp add: activePlaylist_def shuffleState_def initialState_def playlistA_def playlist3_def)
  have b: "activePlaylistId shuffleState = Some ''3''" by (simp add: shuffleState_def)
  have c: "\<forall>k. 0 \<le> random env0 k \<and> random env0 k < 1" by (simp add: env0_def)
  show ?thesis
    using shuffle_permutes [OF a b _ c] a c shuffle_of_shuffleState by auto
qed

section \<open>Reordering by drag and drop\<close>

lemma spliceStart_in_range: "0 \<le> i \<Longrightarrow> i \<le> int n \<Longrightarrow> spliceStart n i = nat i"
  by (simp add: spliceStart_def)

lemma find_map_songs:
  assumes "find (\<lambda>p. Some (id_playlist p) = pid) ps = Some ap"
  shows "find (\<lambda>p. Some (id_playlist p) = pid)
           (map (\<lambda>p. if Some (id_playlist p) = pid then p\<lparr>songs := ys\<rparr> else p) ps)
         = Some (ap\<lparr>songs := ys\<rparr>)"
  using assms by (induction ps) (auto split: if_splits)

lemma map_unchangedExcept:
  "list_all2 (unchangedExcept pid) ps
     (map (\<lambda>p. if Some (id_playlist p) = pid then p\<lparr>songs := ys\<rparr> else p) ps)"
  by (induction ps) (simp_all add: unchangedExcept_def)

lemma refl_unchangedExcept: "list_all2 (unchangedExcept pid) ps ps"
  by (simp add: list_all2_same unchangedExcept_def)

lemma move_keeps_others:
  fixes xs :: "'a list"
  assumes "d < length xs" "t < length xs"
  defines "ys \<equiv> take d xs @ drop (Suc d) xs"
  defines "zs \<equiv> take t ys @ xs ! d # drop t ys"
  shows "length zs = length xs" and "zs ! t = xs ! d"
    and "take t zs @ drop (Suc t) zs = ys"
proof -
  have ly: "length ys = length xs - 1" using assms(1) by (auto simp: ys_def)
  then have t: "t \<le> length ys" using assms(2) by simp
  show "length zs = length xs" using ly t assms(1) by (simp add: zs_def)
  show "zs ! t = xs ! d" using t by (simp add: zs_def nth_append)
  show "take t zs @ drop (Suc t) zs = ys" using t by (simp add: zs_def)
qed

lemma splice_move:
  fixes xs :: "'a list"
  assumes "0 \<le> d" "d < int (length xs)" "0 \<le> t" "t < int (length xs)"
  defines "zs \<equiv> spliceIn t (xs ! nat d) (spliceOut d xs)"
  shows "length zs = length xs" and "zs ! nat t = xs ! nat d"
    and "take (nat t) zs @ drop (Suc (nat t)) zs = take (nat d) xs @ drop (Suc (nat d)) xs"
    and "d = t \<Longrightarrow> zs = xs"
proof -
  let ?ys = "take (nat d) xs @ drop (Suc (nat d)) xs"
  have d: "nat d < length xs" and t: "nat t < length xs" using assms(1-4) by auto
  have sd: "spliceStart (length xs) d = nat d"
    using assms(1,2) by (simp add: spliceStart_in_range)
  have out: "spliceOut d xs = ?ys" by (simp add: spliceOut_def sd Let_def)
  have "length ?ys = length xs - 1" using d by auto
  then have "spliceStart (length ?ys) t = nat t"
    using assms(3) t by (intro spliceStart_in_range) auto
  then have zs: "zs = take (nat t) ?ys @ xs ! nat d # drop (nat t) ?ys"
    by (simp add: zs_def spliceIn_def out Let_def)
  note mv = move_keeps_others [OF d t]
  show "length zs = length xs" unfolding zs by (rule mv(1))
  show "zs ! nat t = xs ! nat d" unfolding zs by (rule mv(2))
  show "take (nat t) zs @ drop (Suc (nat t)) zs = ?ys" unfolding zs by (rule mv(3))
  show "zs = xs" if "d = t"
  proof -
    have "zs = take (nat d) xs @ xs ! nat d # drop (Suc (nat d)) xs"
      using d by (simp add: zs that [symmetric])
    then show ?thesis using d by (simp add: id_take_nth_drop [symmetric])
  qed
qed

text \<open>
  Claim C9. A drag-enter step on the song position \<open>t\<close> of the active playlist, while
  the song at position \<open>d\<close> is dragged (both valid positions), removes that song and
  inserts it at \<open>t\<close>: the playlist keeps its length, the song is now at \<open>t\<close>, the other
  songs are left in their order (removing position \<open>t\<close> from the new list gives what
  removing position \<open>d\<close> from the old one gives), playlists with another id are
  unchanged, and the dragged index becomes \<open>t\<close>. The witness is the scenario of the
  claim: position 0 dragged to position 2 of four songs gives the order 1, 2, 0, 3.
\<close>

theorem drag_moves_song:
  assumes "activePlaylist s = Some ap" and "draggedItemIndex s = Some d"
    and "0 \<le> d" and "d < int (length (songs ap))"
    and "0 \<le> t" and "t < int (length (songs ap))"
  shows "\<exists>s' ap'. handleDragEnter (t + 1) s = Inr s'
           \<and> activePlaylist s' = Some ap'
           \<and> songs ap' = spliceIn t (songs ap ! nat d) (spliceOut d (songs ap))
           \<and> length (songs ap') = length (songs ap)
           \<and> songs ap' ! nat t = songs ap ! nat d
           \<and> take (nat t) (songs ap') @ drop (Suc (nat t)) (songs ap')
               = take (nat d) (songs ap) @ drop (Suc (nat d)) (songs ap)
           \<and> list_all2 (unchangedExcept (activePlaylistId s)) (playlists s) (playlists s')
           \<and> draggedItemIndex s' = Some t"
proof -
  define zs where "zs = spliceIn t (songs ap ! nat d) (spliceOut d (songs ap))"
  note mv = splice_move [OF assms(3-6), folded zs_def]
  have ne: "songs ap \<noteq> []" using assms(3,4) by auto
  have sd: "spliceStart (length (songs ap)) d < length (songs ap)"
       "songs ap ! spliceStart (length (songs ap)) d = songs ap ! nat d"
    using assms(3,4) by (simp_all add: spliceStart_in_range)
  show ?thesis
  proof (cases "d = t")
    case True
    let ?s' = "s\<lparr>dragOverIndex := Some t\<rparr>"
    have 1: "handleDragEnter (t + 1) s = Inr ?s'"
      using assms True ne by (simp add: handleDragEnter_def)
    have 2: "activePlaylist ?s' = Some ap"
      using assms(1) by (simp add: activePlaylist_def)
    have 3: "songs ap = zs" using mv(4) True by simp
    have 4: "list_all2 (unchangedExcept (activePlaylistId s)) (playlists s) (playlists ?s')"
      by (simp add: refl_unchangedExcept)
    have 5: "draggedItemIndex ?s' = Some t" using assms(2) True by simp
    show ?thesis
      unfolding zs_def [symmetric]
      using 1 2 3 4 5 mv(1,2,3) by blast
  next
    case False
    define s' where
      "s' = s\<lparr>dragOverIndex := Some t,
              playlists :=
                map (\<lambda>p. if Some (id_playlist p) = activePlaylistId s then p\<lparr>songs := zs\<rparr> else p)
                  (playlists s),
              draggedItemIndex := Some t\<rparr>"
    define ap' where "ap' = ap\<lparr>songs := zs\<rparr>"
    have 1: "handleDragEnter (t + 1) s = Inr s'"
      using assms False ne sd by (simp add: handleDragEnter_def zs_def s'_def Let_def)
    have 2: "activePlaylist s' = Some ap'"
      using assms(1) by (simp add: activePlaylist_def find_map_songs s'_def ap'_def)
    have 3: "songs ap' = zs" by (simp add: ap'_def)
    have 4: "list_all2 (unchangedExcept (activePlaylistId s)) (playlists s) (playlists s')"
      by (simp add: map_unchangedExcept s'_def)
    have 5: "draggedItemIndex s' = Some t" by (simp add: s'_def)
    show ?thesis
      unfolding zs_def [symmetric]
      using 1 2 3 4 5 mv(1,2,3) by blast
  qed
qed

lemma dragState_simps:
  "activePlaylist dragState = Some playlist4"
  "draggedItemIndex dragState = Some 0"
  "songs playlist4 = [song0, song1, song2, song3]"
  by (simp_all add: dragState_def handleDragStart_def activePlaylist_def initialState_def
      playlistA_def playlist4_def)

lemma move_first_to_third:
  "spliceIn 2 ([song0, song1, song2, song3] ! nat 0) (spliceOut 0 [song0, song1, song2, song3])
   = [song1, song2, song0, song3]"
  by (simp add: spliceIn_def spliceOut_def spliceStart_def)

theorem drag_moves_song_witness:
  "activePlaylist dragState = Some playlist4
   \<and> draggedItemIndex dragState = Some 0
   \<and> songs playlist4 = [song0, song1, song2, song3]
   \<and> (\<exists>s' ap'. handleDragEnter (2 + 1) dragState = Inr s'
          \<and> activePlaylist s' = Some ap'
          \<and> songs ap' = [song1, song2, song0, song3]
          \<and> draggedItemIndex s' = Some 2)"
proof -
  obtain s' ap' where "handleDragEnter (2 + 1) dragState = Inr s'"
      "activePlaylist s' = Some ap'"
      "songs ap' = spliceIn 2 (songs playlist4 ! nat 0) (spliceOut 0 (songs playlist4))"
      "draggedItemIndex s' = Some 2"
    using drag_moves_song [OF dragState_simps(1,2), of 2]
    by (auto simp: dragState_simps(3))
  then show ?thesis
    by (simp only: dragState_simps move_first_to_third) blast
qed

section \<open>Creating a playlist keeps the collection sorted\<close>

lemma foldedCompare_Cons_le:
  "foldedCompare (a # as) (b # bs) \<le> 0 \<longleftrightarrow>
     lowerCode a < lowerCode b \<or> (lowerCode a = lowerCode b \<and> foldedCompare as bs \<le> 0)"
  by (cases "lowerCode a < lowerCode b"; cases "lowerCode b < lowerCode a") simp_all

lemma foldedCompare_total: "0 < foldedCompare a b \<Longrightarrow> foldedCompare b a \<le> 0"
proof (induction a b rule: foldedCompare.induct)
  case (4 a as b bs)
  show ?case
  proof (cases "lowerCode a < lowerCode b")
    case True
    with "4.prems" show ?thesis by simp
  next
    case False
    note nlt = this
    show ?thesis
    proof (cases "lowerCode b < lowerCode a")
      case True
      then show ?thesis by (simp add: foldedCompare_Cons_le)
    next
      case False
      with nlt "4.prems" have "0 < foldedCompare as bs" by simp
      with "4.IH" nlt False have "foldedCompare bs as \<le> 0" by blast
      with nlt False show ?thesis by (simp add: foldedCompare_Cons_le)
    qed
  qed
qed simp_all

lemma foldedCompare_trans:
  "foldedCompare a b \<le> 0 \<Longrightarrow> foldedCompare b c \<le> 0 \<Longrightarrow> foldedCompare a c \<le> 0"
proof (induction a arbitrary: b c)
  case Nil
  then show ?case by (cases c) simp_all
next
  case (Cons x xs)
  from Cons.prems(1) obtain y ys where b: "b = y # ys" by (cases b) auto
  from Cons.prems(2) b obtain z zs where c: "c = z # zs" by (cases c) auto
  from Cons.prems(1) b have 1:
    "lowerCode x < lowerCode y \<or> (lowerCode x = lowerCode y \<and> foldedCompare xs ys \<le> 0)"
    by (simp only: foldedCompare_Cons_le)
  from Cons.prems(2) b c have 2:
    "lowerCode y < lowerCode z \<or> (lowerCode y = lowerCode z \<and> foldedCompare ys zs \<le> 0)"
    by (simp only: foldedCompare_Cons_le)
  from 1 2 Cons.IH have
    "lowerCode x < lowerCode z \<or> (lowerCode x = lowerCode z \<and> foldedCompare xs zs \<le> 0)"
    by (metis less_trans)
  then show ?case unfolding c by (simp only: foldedCompare_Cons_le)
qed

lemma mset_sortInsert: "mset (sortInsert cmp x ys) = add_mset x (mset ys)"
  by (induction ys) simp_all

lemma mset_js_sort: "mset (js_sort cmp xs) = mset xs"
  by (induction xs) (simp_all add: js_sort_def mset_sortInsert)

lemma set_sortInsert: "set (sortInsert cmp x ys) = insert x (set ys)"
  by (induction ys) auto

lemma sorted_sortInsert:
  assumes tot: "\<And>a b. 0 < cmp a b \<Longrightarrow> cmp b a \<le> 0"
    and trans: "\<And>a b c. cmp a b \<le> 0 \<Longrightarrow> cmp b c \<le> 0 \<Longrightarrow> cmp a c \<le> (0::int)"
    and "sorted_wrt (\<lambda>a b. cmp a b \<le> 0) ys"
  shows "sorted_wrt (\<lambda>a b. cmp a b \<le> 0) (sortInsert cmp x ys)"
  using assms(3)
proof (induction ys)
  case Nil
  then show ?case by simp
next
  case (Cons y ys)
  show ?case
  proof (cases "cmp x y \<le> 0")
    case True
    then have "\<forall>z\<in>set ys. cmp x z \<le> 0" using Cons.prems trans by auto
    then show ?thesis using True Cons.prems by simp
  next
    case False
    then have "cmp y x \<le> 0" using tot [of x y] by simp
    then show ?thesis using False Cons by (simp add: set_sortInsert)
  qed
qed

lemma sorted_js_sort:
  assumes tot: "\<And>a b. 0 < cmp a b \<Longrightarrow> cmp b a \<le> 0"
    and trans: "\<And>a b c. cmp a b \<le> 0 \<Longrightarrow> cmp b c \<le> 0 \<Longrightarrow> cmp a c \<le> (0::int)"
  shows "sorted_wrt (\<lambda>a b. cmp a b \<le> 0) (js_sort cmp xs)"
proof (induction xs)
  case Nil
  then show ?case by (simp add: js_sort_def)
next
  case (Cons x xs)
  have "js_sort cmp (x # xs) = sortInsert cmp x (js_sort cmp xs)" by (simp add: js_sort_def)
  then show ?case using sorted_sortInsert [OF tot trans Cons] by simp
qed

lemma foldedCompare_case_blind:
  "toLowerCase a = toLowerCase b \<Longrightarrow> foldedCompare a b = 0"
proof (induction a b rule: foldedCompare.induct)
  case (4 a as b bs)
  then have "toLowerChar a = toLowerChar b" "toLowerCase as = toLowerCase bs"
    by (simp_all add: toLowerCase_def)
  with "4.IH" show ?case by (simp add: lowerCode_def)
qed (simp_all add: toLowerCase_def)

lemma toLowerChar_idem: "toLowerChar (toLowerChar c) = toLowerChar c"
proof -
  define n where "n = (of_char c :: nat)"
  define d where "d = (char_of (n + 32) :: char)"
  show ?thesis
  proof (cases "(65 \<le> n \<and> n \<le> 90) \<or> (192 \<le> n \<and> n \<le> 222 \<and> n \<noteq> 215)")
    case True
    have low: "toLowerChar c = d"
      unfolding toLowerChar_def Let_def d_def n_def using True [unfolded n_def] by (rule if_P)
    from True have "(n + 32) mod 256 = n + 32" by auto
    then have m: "(of_char d :: nat) = n + 32" by (simp add: d_def)
    have "\<not> ((65 \<le> n + 32 \<and> n + 32 \<le> 90)
             \<or> (192 \<le> n + 32 \<and> n + 32 \<le> 222 \<and> n + 32 \<noteq> 215))"
      using True by auto
    then have "toLowerChar d = d"
      unfolding toLowerChar_def Let_def m by (rule if_not_P)
    then show ?thesis by (simp add: low)
  next
    case False
    have "toLowerChar c = c"
      unfolding toLowerChar_def Let_def using False [unfolded n_def] by (rule if_not_P)
    then show ?thesis by simp
  qed
qed

lemma toLowerCase_idem: "toLowerCase (toLowerCase s) = toLowerCase s"
  by (simp add: toLowerCase_def toLowerChar_idem)

lemma playlists_resetSelectionEffect: "playlists (resetSelectionEffect s s') = playlists s'"
  by (simp add: resetSelectionEffect_def)

text \<open>
  Claim C7. The platform's comparison at base sensitivity is taken to be a consistent
  comparator (of two strings one precedes or equals the other, and this is transitive)
  under which strings that differ only in the case of their letters are equal. Then
  submitting, in the create-playlist-input view, a name that is not empty after trimming
  leaves the playlist collection sorted by that comparison, and sorted by it still when
  every name is replaced by its lower-case form: the order of the collection is an
  order of the names with case ignored. The collection is the old one with the new
  playlist added. The witness is the scenario of the claim, with playlists "A" and "z"
  and the new name "B", and the same with playlists "a" and "Z", where an ordering that
  looks at case would put B and Z before a.
\<close>

theorem created_playlists_sorted:
  assumes "view s = CreatePlaylistInput" and "trim (newPlaylistName s) \<noteq> []"
    and total: "\<forall>a b. 0 < localeCompare e a b \<longrightarrow> localeCompare e b a \<le> 0"
    and trans: "\<forall>a b c. localeCompare e a b \<le> 0 \<and> localeCompare e b c \<le> 0
                  \<longrightarrow> localeCompare e a c \<le> 0"
    and blind: "\<forall>a b. toLowerCase a = toLowerCase b \<longrightarrow> localeCompare e a b = 0"
  shows "\<exists>s'. onCenter e s = Inr s'
           \<and> playlists s' = playlists (handleCreatePlaylist e s)
           \<and> sorted_wrt (\<lambda>a b. localeCompare e (name a) (name b) \<le> 0) (playlists s')
           \<and> sorted_wrt
                (\<lambda>a b. localeCompare e (toLowerCase (name a)) (toLowerCase (name b)) \<le> 0)
                (playlists s')
           \<and> mset (playlists s') =
               add_mset \<lparr>id_playlist = dateNow e, name = newPlaylistName s,
                          songs = (case tempSong s of None \<Rightarrow> [] | Some t \<Rightarrow> [t])\<rparr>
                 (mset (playlists s))"
proof -
  let ?new = "\<lparr>id_playlist = dateNow e, name = newPlaylistName s,
               songs = (case tempSong s of None \<Rightarrow> [] | Some t \<Rightarrow> [t])\<rparr>"
  let ?cmp = "\<lambda>a b. localeCompare e (name a) (name b)"
  let ?ps = "js_sort ?cmp (playlists s @ [?new])"
  have ps: "playlists (handleCreatePlaylist e s) = ?ps"
    using assms(2)
    by (cases "tempSong s") (simp_all add: handleCreatePlaylist_def truthy_def Let_def)
  have run: "onCenter e s = Inr (resetSelectionEffect s (handleCreatePlaylist e s))"
    using assms(1) by (simp add: onCenter_def handleCenterClick_def)
  have sorted: "sorted_wrt (\<lambda>a b. ?cmp a b \<le> 0) ?ps"
  proof (rule sorted_js_sort)
    show "?cmp b a \<le> 0" if "0 < ?cmp a b" for a b using total that by blast
    show "?cmp a c \<le> 0" if "?cmp a b \<le> 0" "?cmp b c \<le> 0" for a b c
      using trans that by blast
  qed
  have fold: "localeCompare e (toLowerCase a) (toLowerCase b) \<le> 0"
    if le: "localeCompare e a b \<le> 0" for a b
  proof -
    have "localeCompare e (toLowerCase a) a = 0" "localeCompare e b (toLowerCase b) = 0"
      using blind by (simp_all add: toLowerCase_idem)
    then have "localeCompare e (toLowerCase a) a \<le> 0" "localeCompare e b (toLowerCase b) \<le> 0"
      by simp_all
    with le trans show ?thesis by blast
  qed
  have folded:
    "sorted_wrt (\<lambda>a b. localeCompare e (toLowerCase (name a)) (toLowerCase (name b)) \<le> 0) ?ps"
    by (rule sorted_wrt_mono_rel [OF _ sorted]) (simp add: fold)
  have "mset ?ps = add_mset ?new (mset (playlists s))"
    by (simp add: mset_js_sort)
  with run sorted folded show ?thesis
    by (simp add: ps playlists_resetSelectionEffect)
qed

lemma names_after_creating_B:
  "map name (playlists (handleCreatePlaylist env0 createBState)) = [''A'', ''B'', ''z'']"
  "map name (playlists (handleCreatePlaylist env0 createMixedState)) = [''a'', ''B'', ''Z'']"
  by (simp_all add: handleCreatePlaylist_def createBState_def createMixedState_def
      initialState_def env0_def truthy_def trim_def isWhiteSpace_def js_sort_def playlistA_def
      playlistZ_def playlistLowerA_def playlistUpperZ_def toLowerChar_def lowerCode_def Let_def)

lemma env0_comparison:
  "\<forall>a b. 0 < localeCompare env0 a b \<longrightarrow> localeCompare env0 b a \<le> 0"
  "\<forall>a b c. localeCompare env0 a b \<le> 0 \<and> localeCompare env0 b c \<le> 0
     \<longrightarrow> localeCompare env0 a c \<le> 0"
  "\<forall>a b. toLowerCase a = toLowerCase b \<longrightarrow> localeCompare env0 a b = 0"
  by (auto simp: env0_def foldedCompare_case_blind
      intro: foldedCompare_total foldedCompare_trans)

theorem created_playlists_sorted_witness:
  "view createBState = CreatePlaylistInput
   \<and> map name (playlists createBState) = [''A'', ''z'']
   \<and> trim (newPlaylistName createBState) \<noteq> []
   \<and> localeCompare env0 ''a'' ''A'' = 0
   \<and> (\<exists>s'. onCenter env0 createBState = Inr s'
          \<and> sorted_wrt (\<lambda>a b. localeCompare env0 (name a) (name b) \<le> 0) (playlists s')
          \<and> map name (playlists s') = [''A'', ''B'', ''z''])
   \<and> map name (playlists createMixedState) = [''a'', ''Z'']
   \<and> (\<exists>s'. onCenter env0 createMixedState = Inr s'
          \<and> sorted_wrt (\<lambda>a b. localeCompare env0 (name a) (name b) \<le> 0) (playlists s')
          \<and> map name (playlists s') = [''a'', ''B'', ''Z''])"
proof -
  have v: "view createBState = CreatePlaylistInput" "view createMixedState = CreatePlaylistInput"
    by (simp_all add: createBState_def createMixedState_def)
  have t: "trim (newPlaylistName createBState) \<noteq> []"
      "trim (newPlaylistName createMixedState) \<noteq> []"
    by (simp_all add: createBState_def createMixedState_def trim_def isWhiteSpace_def)
  have n: "map name (playlists createBState) = [''A'', ''z'']"
      "map name (playlists createMixedState) = [''a'', ''Z'']"
    by (simp_all add: createBState_def createMixedState_def initialState_def playlistA_def
        playlistZ_def playlistLowerA_def playlistUpperZ_def)
  obtain s1 where s1: "onCenter env0 createBState = Inr s1"
      "playlists s1 = playlists (handleCreatePlaylist env0 createBState)"
      "sorted_wrt (\<lambda>a b. localeCompare env0 (name a) (name b) \<le> 0) (playlists s1)"
    using created_playlists_sorted [OF v(1) t(1) env0_comparison] by blast
  obtain s2 where s2: "onCenter env0 createMixedState = Inr s2"
      "playlists s2 = playlists (handleCreatePlaylist env0 createMixedState)"
      "sorted_wrt (\<lambda>a b. localeCompare env0 (name a) (name b) \<le> 0) (playlists s2)"
    using created_playlists_sorted [OF v(2) t(2) env0_comparison] by blast
  have "\<exists>s'. onCenter env0 createBState = Inr s'
          \<and> sorted_wrt (\<lambda>a b. localeCompare env0 (name a) (name b) \<le> 0) (playlists s')
          \<and> map name (playlists s') = [''A'', ''B'', ''z'']"
    using s1 by (simp add: names_after_creating_B)
  moreover have "\<exists>s'. onCenter env0 createMixedState = Inr s'
          \<and> sorted_wrt (\<lambda>a b. localeCompare env0 (name a) (name b) \<le> 0) (playlists s')
          \<and> map name (playlists s') = [''a'', ''B'', ''Z'']"
    using s2 by (simp add: names_after_creating_B)
  moreover have "localeCompare env0 ''a'' ''A'' = 0"
    by (simp add: env0_def lowerCode_def toLowerChar_def)
  ultimately show ?thesis using v(1) t(1) n by blast
qed

section \<open>Adding the staged song to a playlist\<close>

text \<open>
  Claim C5, evaluated at a playlist of one song. The center click appends the staged
  song, clears it, activates the playlist and shows its contents, and sets the selection
  index to 1, the length of the playlist before the append. The item list begins with
  the shuffle item, so item 1 is the old song and the appended song is item 2: the
  selection does not point at the new song.
\<close>

theorem added_song_not_selected:
  "onCenter env0 addState = Inr addedState
   \<and> getPlaylistViewItems addedState
       = [\<lparr>id_song = ''SHUFFLE_PLAYLIST'', title = ''Shuffle Playlist''\<rparr>, song0, song1,
          \<lparr>id_song = ''DELETE_PLAYLIST'', title = ''Delete This Playlist''\<rparr>]
   \<and> selectedIndex addedState = Num 1
   \<and> js_index (getPlaylistViewItems addedState) (selectedIndex addedState) = Some song0
   \<and> js_index (getPlaylistViewItems addedState) (Num 2) = Some song1
   \<and> song0 \<noteq> song1"
  by (simp add: onCenter_def handleCenterClick_def handleSelectPlaylistForSongSelection_def
      addSongToPlaylist_def resetSelectionEffect_def addState_def addedState_def initialState_def
      selectPlaylistItems_def getPlaylistViewItems_def activePlaylist_def js_index_def js_at_def
      playlistA_def playlistZ_def song0_def song1_def)

section \<open>Deleting the song that is playing\<close>






section \<open>The range of the selection index\<close>

lemma indexInRange_zero: "selectedIndex s = Num 0 \<Longrightarrow> indexInRange s"
  by (simp add: indexInRange_def max_def)

lemma indexInRange_now_playing:
  "view s = NowPlayingView \<Longrightarrow> selectedIndex s = Num i \<Longrightarrow> 0 \<le> i \<Longrightarrow> i < 5 \<Longrightarrow> indexInRange s"
  by (simp add: indexInRange_def itemCount_def navItems_def nowPlayingMenuItems_def)

lemma indexInRange_reset: "indexInRange s' \<Longrightarrow> indexInRange (resetSelectionEffect s s')"
  by (simp add: resetSelectionEffect_def indexInRange_zero)

lemma indexInRange_next:
  assumes "indexInRange s" and "navItems s \<noteq> Some 0"
  shows "indexInRange (onNext s)" and "indexInRange (onPrev s)"
proof -
  show "indexInRange (onNext s)"
  proof (cases "navItems s")
    case None
    then show ?thesis using assms(1) by (simp add: onNext_eq handleNext_def)
  next
    case (Some n)
    with assms obtain i where i: "selectedIndex s = Num i" "0 \<le> i" "i < int n" and n: "0 < n"
      by (auto simp: indexInRange_def itemCount_def split: jsnum.splits)
    show ?thesis
      using onNext_in_range [OF Some n i] Some n
      by (simp add: indexInRange_def itemCount_def)
  qed
  show "indexInRange (onPrev s)"
  proof (cases "navItems s")
    case None
    then show ?thesis using assms(1) by (simp add: onPrev_eq handlePrev_def)
  next
    case (Some n)
    with assms obtain i where i: "selectedIndex s = Num i" "0 \<le> i" "i < int n" and n: "0 < n"
      by (auto simp: indexInRange_def itemCount_def split: jsnum.splits)
    show ?thesis
      using onPrev_in_range [OF Some n i] Some n
      by (simp add: indexInRange_def itemCount_def)
  qed
qed

lemma selectedIndex_handleMenu: "selectedIndex (handleMenu s) = Num 0"
  by (cases "view s") (simp_all add: handleMenu_def Let_def)

lemma indexInRange_menu: "indexInRange (onMenu s)"
  by (simp add: onMenu_def indexInRange_reset indexInRange_zero selectedIndex_handleMenu)

lemma handleCenterLongPress_cases:
  "handleCenterLongPress s = s \<or> selectedIndex (handleCenterLongPress s) = Num 0"
  by (simp add: handleCenterLongPress_def Let_def split: option.splits)

lemma indexInRange_long_press: "indexInRange s \<Longrightarrow> indexInRange (onCenterLongPress s)"
  unfolding onCenterLongPress_def
  using handleCenterLongPress_cases [of s]
  by (intro indexInRange_reset) (auto intro: indexInRange_zero)

lemma selectedIndex_handleMainMenuSelection:
  "selectedIndex (handleMainMenuSelection i s) = Num 0"
  by (simp add: handleMainMenuSelection_def Let_def)

lemma selectedIndex_handlePlaylistsSelection:
  "handlePlaylistsSelection i s = Inr s' \<Longrightarrow> selectedIndex s' = Num 0"
  by (auto simp: handlePlaylistsSelection_def split: option.splits)

lemma handlePlaylistViewSelection_cases:
  "handlePlaylistViewSelection (selectedIndex s) s = s
   \<or> selectedIndex (handlePlaylistViewSelection (selectedIndex s) s) = Num 0"
  by (simp add: handlePlaylistViewSelection_def Let_def split: option.splits)

lemma selectedIndex_handleSongMenuSelection:
  "selectedIndex (handleSongMenuSelection i s) = Num 0"
  by (simp add: handleSongMenuSelection_def)

lemma handleDeleteSong_cases:
  "handleDeleteSong s = s \<or> selectedIndex (handleDeleteSong s) = Num 0"
  by (simp add: handleDeleteSong_def split: option.splits)

lemma handleDeletePlaylist_cases:
  "handleDeletePlaylist s = s \<or> selectedIndex (handleDeletePlaylist s) = Num 0"
  by (simp add: handleDeletePlaylist_def)

lemma handleShufflePlaylist_cases:
  "handleShufflePlaylist e s = Inr s' \<Longrightarrow>
   s' = s \<or> (view s' = NowPlayingView \<and> selectedIndex s' = selectedIndex s)"
  by (auto simp: handleShufflePlaylist_def split: option.splits if_splits sum.splits)

lemma handleConfirmation_in_range:
  assumes "indexInRange s" and "handleConfirmation e (selectedIndex s) s = Inr s'"
    and "view s = DeleteSongConfirm \<or> view s = DeletePlaylistConfirm \<or> view s = ShuffleConfirm"
  shows "indexInRange s'"
proof (cases "selectedIndex s = Num 1")
  case True
  have same: "s\<lparr>selectedIndex := selectedIndex s\<rparr> = s" by simp
  from assms(3) show ?thesis
  proof (elim disjE)
    assume v: "view s = DeleteSongConfirm"
    then have "s' = handleDeleteSong s"
      using assms(2) True by (simp add: handleConfirmation_def Let_def same [unfolded True])
    then show ?thesis using handleDeleteSong_cases [of s] assms(1)
      by (auto intro: indexInRange_zero)
  next
    assume v: "view s = DeletePlaylistConfirm"
    then have "s' = handleDeletePlaylist s"
      using assms(2) True by (simp add: handleConfirmation_def Let_def same [unfolded True])
    then show ?thesis using handleDeletePlaylist_cases [of s] assms(1)
      by (auto intro: indexInRange_zero)
  next
    assume v: "view s = ShuffleConfirm"
    then have "handleShufflePlaylist e s = Inr s'"
      using assms(2) True by (simp add: handleConfirmation_def Let_def same [unfolded True])
    from handleShufflePlaylist_cases [OF this] show ?thesis
      using assms(1) True by (auto intro: indexInRange_now_playing [of _ 1])
  qed
next
  case False
  then have "selectedIndex s' = Num 0"
    using assms(2,3) by (auto simp: handleConfirmation_def Let_def)
  then show ?thesis by (rule indexInRange_zero)
qed

lemma handleAddSongUrl_cases:
  "handleAddSongUrl e s = s \<or> selectedIndex (handleAddSongUrl e s) = Num 0"
  by (simp add: handleAddSongUrl_def split: option.splits)

lemma find_map_append_song:
  "find (\<lambda>p. id_playlist p = pid)
     (map (\<lambda>p. if id_playlist p = pid then p\<lparr>songs := songs p @ [t]\<rparr> else p) ps)
   = map_option (\<lambda>p. p\<lparr>songs := songs p @ [t]\<rparr>) (find (\<lambda>p. id_playlist p = pid) ps)"
  by (induction ps) simp_all

lemma indexInRange_addSongToPlaylist: "indexInRange (addSongToPlaylist pid t s)"
  by (cases "find (\<lambda>p. id_playlist p = pid) (playlists s)")
     (simp_all add: addSongToPlaylist_def indexInRange_def itemCount_def navItems_def
       getPlaylistViewItems_def activePlaylist_def find_map_append_song)

lemma handleSelectPlaylistForSongSelection_in_range:
  assumes "indexInRange s"
    and "handleSelectPlaylistForSongSelection (selectedIndex s) s = Inr s'"
    and "view s = SelectPlaylistForSong" and "\<not> choosesCreateNew s"
  shows "indexInRange s'"
proof -
  have same: "s\<lparr>selectedIndex := selectedIndex s\<rparr> = s" by simp
  from assms(2) obtain sel where sel: "js_index (selectPlaylistItems s) (selectedIndex s) = Some sel"
    by (auto simp: handleSelectPlaylistForSongSelection_def split: option.splits)
  show ?thesis
  proof (cases "id_playlist sel = ''new''")
    case True
    then have "s' = s\<lparr>view := CreatePlaylistInput\<rparr>"
      using assms(2) sel by (simp add: handleSelectPlaylistForSongSelection_def Let_def same)
    moreover have "selectedIndex s = Num 0"
      using assms(3,4) sel True by (simp add: choosesCreateNew_def)
    ultimately show ?thesis by (simp add: indexInRange_zero)
  next
    case False
    show ?thesis
    proof (cases "tempSong s")
      case None
      then have "s' = s"
        using assms(2) sel False by (simp add: handleSelectPlaylistForSongSelection_def Let_def same)
      then show ?thesis using assms(1) by simp
    next
      case (Some t)
      then have "s' = addSongToPlaylist (id_playlist sel) t s"
        using assms(2) sel False by (simp add: handleSelectPlaylistForSongSelection_def Let_def same)
      then show ?thesis by (simp add: indexInRange_addSongToPlaylist)
    qed
  qed
qed

lemma handleCreatePlaylist_cases:
  "handleCreatePlaylist e s = s
   \<or> selectedIndex (handleCreatePlaylist e s) = Num 0
   \<or> view (handleCreatePlaylist e s) = Playlists"
  by (cases "tempSong s") (simp_all add: handleCreatePlaylist_def Let_def)

lemma handleCreatePlaylist_in_range:
  assumes "indexInRange s" and "view s = CreatePlaylistInput"
  shows "indexInRange (resetSelectionEffect s (handleCreatePlaylist e s))"
  using handleCreatePlaylist_cases [of e s]
proof (elim disjE)
  assume "handleCreatePlaylist e s = s"
  then show ?thesis using assms(1) by (simp add: indexInRange_reset)
next
  assume "selectedIndex (handleCreatePlaylist e s) = Num 0"
  then show ?thesis by (intro indexInRange_reset indexInRange_zero)
next
  assume "view (handleCreatePlaylist e s) = Playlists"
  then have "selectedIndex (resetSelectionEffect s (handleCreatePlaylist e s)) = Num 0"
    using assms(2) by (simp add: resetSelectionEffect_def)
  then show ?thesis by (rule indexInRange_zero)
qed

lemma handleNextTrack_nav:
  "view (handleNextTrack s) = view s" "selectedIndex (handleNextTrack s) = selectedIndex s"
  by (simp_all add: handleNextTrack_def Let_def split: option.splits)

lemma handlePrevTrack_nav:
  "view (handlePrevTrack e s) = view s" "selectedIndex (handlePrevTrack e s) = selectedIndex s"
  by (simp_all add: handlePrevTrack_def ytCall_def Let_def split: option.splits)

lemma handlePlayPause_nav:
  "view s = NowPlayingView \<Longrightarrow> view (handlePlayPause e s) = NowPlayingView"
  "selectedIndex (handlePlayPause e s) = selectedIndex s"
  by (simp_all add: handlePlayPause_def ytCall_def split: list.splits)

lemma handleNowPlayingSelection_nav:
  assumes "view s = NowPlayingView"
  shows "view (handleNowPlayingSelection e (selectedIndex s) s) = NowPlayingView"
    and "selectedIndex (handleNowPlayingSelection e (selectedIndex s) s) = selectedIndex s"
  using assms
  by (simp_all add: handleNowPlayingSelection_def Let_def handleNextTrack_nav handlePrevTrack_nav
      handlePlayPause_nav)

lemma itemCount_now_playing: "view s = NowPlayingView \<Longrightarrow> itemCount s = 5"
  by (simp add: itemCount_def navItems_def nowPlayingMenuItems_def)

lemma handleNowPlayingSelection_in_range:
  assumes "indexInRange s" and "view s = NowPlayingView"
  shows "indexInRange (handleNowPlayingSelection e (selectedIndex s) s)"
proof -
  let ?t = "handleNowPlayingSelection e (selectedIndex s) s"
  note nav = handleNowPlayingSelection_nav [OF assms(2), of e]
  have "itemCount ?t = itemCount s"
    by (simp add: itemCount_now_playing nav(1) assms(2))
  then show ?thesis
    using assms(1) nav(2) by (cases "selectedIndex s") (simp_all add: indexInRange_def)
qed

lemma onCenter_in_range:
  assumes "indexInRange s" and "onCenter e s = Inr s'" and "\<not> choosesCreateNew s"
  shows "indexInRange s'"
proof -
  from assms(2) obtain t where t: "handleCenterClick e s = Inr t"
    and s': "s' = resetSelectionEffect s t"
    by (auto simp: onCenter_def split: sum.splits)
  have "indexInRange (resetSelectionEffect s t)"
  proof (cases "view s")
    case MainMenu
    with t have "selectedIndex t = Num 0"
      by (auto simp: handleCenterClick_def selectedIndex_handleMainMenuSelection)
    then show ?thesis by (intro indexInRange_reset indexInRange_zero)
  next
    case Playlists
    with t have "selectedIndex t = Num 0"
      by (auto simp: handleCenterClick_def dest: selectedIndex_handlePlaylistsSelection)
    then show ?thesis by (intro indexInRange_reset indexInRange_zero)
  next
    case PlaylistView
    with t have "t = handlePlaylistViewSelection (selectedIndex s) s"
      by (simp add: handleCenterClick_def)
    with handlePlaylistViewSelection_cases [of s] assms(1) show ?thesis
      by (auto intro: indexInRange_reset indexInRange_zero)
  next
    case AddSong
    with t have "t = handleAddSongUrl e s" by (simp add: handleCenterClick_def)
    with handleAddSongUrl_cases [of e s] assms(1) show ?thesis
      by (auto intro: indexInRange_reset indexInRange_zero)
  next
    case NowPlayingView
    with t have "t = handleNowPlayingSelection e (selectedIndex s) s"
      by (simp add: handleCenterClick_def)
    with handleNowPlayingSelection_in_range [OF assms(1) NowPlayingView, of e] show ?thesis
      by (simp add: indexInRange_reset)
  next
    case SelectPlaylistForSong
    with t have "handleSelectPlaylistForSongSelection (selectedIndex s) s = Inr t"
      by (simp add: handleCenterClick_def)
    from handleSelectPlaylistForSongSelection_in_range
           [OF assms(1) this SelectPlaylistForSong assms(3)]
    show ?thesis by (rule indexInRange_reset)
  next
    case CreatePlaylistInput
    with t have "t = handleCreatePlaylist e s" by (simp add: handleCenterClick_def)
    with handleCreatePlaylist_in_range [OF assms(1) CreatePlaylistInput, of e] show ?thesis
      by simp
  next
    case SongMenu
    with t have "selectedIndex t = Num 0"
      by (auto simp: handleCenterClick_def selectedIndex_handleSongMenuSelection)
    then show ?thesis by (intro indexInRange_reset indexInRange_zero)
  next
    case DeleteSongConfirm
    with t have "handleConfirmation e (selectedIndex s) s = Inr t"
      by (simp add: handleCenterClick_def)
    from handleConfirmation_in_range [OF assms(1) this] DeleteSongConfirm show ?thesis
      by (simp add: indexInRange_reset)
  next
    case DeletePlaylistConfirm
    with t have "handleConfirmation e (selectedIndex s) s = Inr t"
      by (simp add: handleCenterClick_def)
    from handleConfirmation_in_range [OF assms(1) this] DeletePlaylistConfirm show ?thesis
      by (simp add: indexInRange_reset)
  next
    case ShuffleConfirm
    with t have "handleConfirmation e (selectedIndex s) s = Inr t"
      by (simp add: handleCenterClick_def)
    from handleConfirmation_in_range [OF assms(1) this] ShuffleConfirm show ?thesis
      by (simp add: indexInRange_reset)
  next
    case EditSongTitle
    with t have "t = s" by (simp add: handleCenterClick_def)
    then show ?thesis using assms(1) by (simp add: indexInRange_reset)
  qed
  then show ?thesis by (simp add: s')
qed

lemma js_index_in_range:
  "0 \<le> i \<Longrightarrow> i < int (length xs) \<Longrightarrow> js_index xs (Num i) = Some (xs ! nat i)"
  by (simp add: js_index_def js_at_def)

lemma handleCenterClick_returns:
  assumes "indexInRange s" and "\<forall>k. 0 \<le> random e k \<and> random e k < 1"
  shows "\<exists>t. handleCenterClick e s = Inr t"
proof (cases "view s")
  case Playlists
  with assms(1) obtain i where "selectedIndex s = Num i" "0 \<le> i"
      "i < int (length (playlistMenuItems s))"
    by (auto simp: indexInRange_def itemCount_def navItems_def playlistMenuItems_def
        split: jsnum.splits)
  then show ?thesis using Playlists
    by (simp add: handleCenterClick_def handlePlaylistsSelection_def js_index_in_range)
next
  case SelectPlaylistForSong
  with assms(1) obtain i where "selectedIndex s = Num i" "0 \<le> i"
      "i < int (length (selectPlaylistItems s))"
    by (auto simp: indexInRange_def itemCount_def navItems_def selectPlaylistItems_def
        split: jsnum.splits)
  then show ?thesis using SelectPlaylistForSong
    by (simp add: handleCenterClick_def handleSelectPlaylistForSongSelection_def
        js_index_in_range Let_def split: option.splits)
next
  case ShuffleConfirm
  have "\<exists>t. handleShufflePlaylist e s' = Inr t" for s'
  proof (cases "activePlaylistId s'")
    case None
    then show ?thesis by (simp add: handleShufflePlaylist_def)
  next
    case (Some pid)
    obtain qs where "shufflePlaylists pid (random e) (playlists s') = Inr qs"
      using shufflePlaylists_permutes [OF assms(2)] by blast
    then show ?thesis using Some by (simp add: handleShufflePlaylist_def)
  qed
  then show ?thesis using ShuffleConfirm
    by (simp add: handleCenterClick_def handleConfirmation_def Let_def)
qed (simp_all add: handleCenterClick_def handleConfirmation_def Let_def)

text \<open>
  Claim C1, as the code has it. From a state whose selection index is in range, the
  index is in range again after \<open>onMenu\<close> and after \<open>onCenterLongPress\<close>; after \<open>onNext\<close>
  and \<open>onPrev\<close> unless the view has an item list that is empty; and after \<open>onCenter\<close>
  unless it chooses "Create New Playlist" in the select-playlist-for-song view at an
  index other than 0. On a list of length \<open>N \<ge> 1\<close>, \<open>onNext\<close> and \<open>onPrev\<close> set the index
  to \<open>(index \<plusminus> 1 + N) mod N\<close>. From such a state \<open>onCenter\<close> raises no exception, the
  random draws lying in \<open>[0, 1)\<close>.
\<close>

theorem selection_index_preserved:
  assumes "indexInRange s"
  shows "(navItems s \<noteq> Some 0 \<longrightarrow> indexInRange (onNext s) \<and> indexInRange (onPrev s))
       \<and> (\<forall>n i. navItems s = Some n \<and> 0 < n \<and> selectedIndex s = Num i \<longrightarrow>
              selectedIndex (onNext s) = Num ((i + 1 + int n) mod int n)
            \<and> selectedIndex (onPrev s) = Num ((i - 1 + int n) mod int n))
       \<and> indexInRange (onMenu s)
       \<and> indexInRange (onCenterLongPress s)
       \<and> (\<forall>s'. onCenter e s = Inr s' \<and> \<not> choosesCreateNew s \<longrightarrow> indexInRange s')
       \<and> ((\<forall>k. 0 \<le> random e k \<and> random e k < 1) \<longrightarrow> (\<exists>s'. onCenter e s = Inr s'))"
proof (intro conjI allI impI)
  show "indexInRange (onNext s)" if "navItems s \<noteq> Some 0"
    using indexInRange_next(1) [OF assms that] .
  show "indexInRange (onPrev s)" if "navItems s \<noteq> Some 0"
    using indexInRange_next(2) [OF assms that] .
  show "indexInRange (onMenu s)" by (rule indexInRange_menu)
  show "indexInRange (onCenterLongPress s)" by (rule indexInRange_long_press [OF assms])
  show "indexInRange s'" if "onCenter e s = Inr s' \<and> \<not> choosesCreateNew s" for s'
    using onCenter_in_range [OF assms] that by blast
next
  fix n i assume a: "navItems s = Some n \<and> 0 < n \<and> selectedIndex s = Num i"
  with assms have i: "0 \<le> i" "i < int n" by (auto simp: indexInRange_def itemCount_def)
  from a have n: "navItems s = Some n" "0 < n" "selectedIndex s = Num i" by auto
  show "selectedIndex (onNext s) = Num ((i + 1 + int n) mod int n)"
    by (simp add: onNext_in_range [OF n i])
  show "selectedIndex (onPrev s) = Num ((i - 1 + int n) mod int n)"
    by (simp add: onPrev_in_range [OF n i])
next
  assume "\<forall>k. 0 \<le> random e k \<and> random e k < 1"
  then obtain t where "handleCenterClick e s = Inr t"
    using handleCenterClick_returns [OF assms, of e] by blast
  then show "\<exists>s'. onCenter e s = Inr s'" by (simp add: onCenter_def)
qed

lemma contentsState_facts:
  "indexInRange contentsState"
  "navItems contentsState = Some 5"
  "selectedIndex contentsState = Num 1"
  "view contentsState = PlaylistView"
  by (simp_all add: indexInRange_def itemCount_def navItems_def contentsState_def
      initialState_def getPlaylistViewItems_def activePlaylist_def playlistA_def playlist3_def)

theorem selection_index_preserved_witness:
  "indexInRange contentsState
   \<and> navItems contentsState = Some 5
   \<and> selectedIndex contentsState = Num 1
   \<and> \<not> choosesCreateNew contentsState
   \<and> indexInRange (onNext contentsState)
   \<and> selectedIndex (onNext contentsState) = Num 2
   \<and> indexInRange (onPrev contentsState)
   \<and> selectedIndex (onPrev contentsState) = Num 0
   \<and> indexInRange (onMenu contentsState)
   \<and> indexInRange (onCenterLongPress contentsState)
   \<and> (\<exists>s'. onCenter env0 contentsState = Inr s' \<and> indexInRange s')"
proof -
  have r: "\<forall>k. 0 \<le> random env0 k \<and> random env0 k < 1" by (simp add: env0_def)
  have c: "\<not> choosesCreateNew contentsState"
    by (simp add: choosesCreateNew_def contentsState_facts)
  note t = selection_index_preserved [OF contentsState_facts(1), of env0]
  from t r obtain s' where s': "onCenter env0 contentsState = Inr s'" by auto
  with t c have "indexInRange s'" by blast
  with s' t c show ?thesis by (simp add: contentsState_facts)
qed

lemma danglingState_reached:
  "run env0 (initialState [playlistA, playlistZ]) danglingInputs = Inr danglingState"
  by code_simp

lemma chooseNewState_reached:
  "run env0 (initialState [playlistA, playlistZ]) [OnNext, OnCenter]
   = Inr ((initialState [playlistA, playlistZ])\<lparr>view := AddSong\<rparr>)"
  "run env0 urlFieldState createNewInputs = Inr chooseNewState"
  by code_simp+

text \<open>
  Claim C1 as stated fails, in two places. The item-list length is not floored at 1: in
  the state reached by the first run above the playlist-contents view has an empty item
  list, and \<open>onNext\<close> and \<open>onPrev\<close> turn the selection index 0 into \<^verbatim>\<open>NaN\<close>. And the
  center click on "Create New Playlist" in the select-playlist-for-song view (reached
  from startup by next and center, typing the URL, and the second run above) keeps the
  index 2 in the create-playlist-input view, which has no items.
\<close>

theorem selection_index_out_of_range:
  "run env0 (initialState [playlistA, playlistZ]) danglingInputs = Inr danglingState
   \<and> view danglingState = PlaylistView
   \<and> getPlaylistViewItems danglingState = []
   \<and> selectedIndex danglingState = Num 0
   \<and> indexInRange danglingState
   \<and> selectedIndex (onNext danglingState) = NaN
   \<and> selectedIndex (onPrev danglingState) = NaN
   \<and> \<not> indexInRange (onNext danglingState)
   \<and> \<not> indexInRange (onPrev danglingState)
   \<and> run env0 (initialState [playlistA, playlistZ]) [OnNext, OnCenter]
       = Inr ((initialState [playlistA, playlistZ])\<lparr>view := AddSong\<rparr>)
   \<and> urlFieldState
       = (initialState [playlistA, playlistZ])
           \<lparr>view := AddSong, urlInput := ''https://www.youtube.com/watch?v=abc123''\<rparr>
   \<and> run env0 urlFieldState createNewInputs = Inr chooseNewState
   \<and> indexInRange chooseNewState
   \<and> onCenter env0 chooseNewState = Inr createNewState
   \<and> view createNewState = CreatePlaylistInput
   \<and> itemCount createNewState = 0
   \<and> selectedIndex createNewState = Num 2
   \<and> \<not> indexInRange createNewState"
proof -
  have items: "getPlaylistViewItems danglingState = []"
    by (simp add: getPlaylistViewItems_def activePlaylist_def danglingState_def initialState_def
        playlistA_def)
  have idx: "selectedIndex danglingState = Num 0" "view danglingState = PlaylistView"
    by (simp_all add: danglingState_def initialState_def)
  have nav: "navItems danglingState = Some 0"
    by (simp add: navItems_def items idx)
  have nxt: "selectedIndex (onNext danglingState) = NaN"
    by (simp add: onNext_eq handleNext_def nav navigate_def navigateIndex_def idx)
  have prv: "selectedIndex (onPrev danglingState) = NaN"
    by (simp add: onPrev_eq handlePrev_def nav navigate_def navigateIndex_def idx)
  have out: "\<not> indexInRange (onNext danglingState)" "\<not> indexInRange (onPrev danglingState)"
    by (simp_all add: indexInRange_def nxt prv)
  have inr: "indexInRange danglingState" by (simp add: indexInRange_zero idx)
  have url: "urlFieldState
       = (initialState [playlistA, playlistZ])
           \<lparr>view := AddSong, urlInput := ''https://www.youtube.com/watch?v=abc123''\<rparr>"
    by (simp add: urlFieldState_def)
  have c1: "indexInRange chooseNewState"
    by (simp add: indexInRange_def itemCount_def navItems_def selectPlaylistItems_def
        chooseNewState_def initialState_def)
  have c2: "onCenter env0 chooseNewState = Inr createNewState"
    by (simp add: onCenter_def handleCenterClick_def handleSelectPlaylistForSongSelection_def
        resetSelectionEffect_def selectPlaylistItems_def js_index_def js_at_def Let_def
        createNewState_def chooseNewState_def initialState_def playlistA_def playlistZ_def)
  have c3: "view createNewState = CreatePlaylistInput" "selectedIndex createNewState = Num 2"
    by (simp_all add: createNewState_def chooseNewState_def)
  have c4: "itemCount createNewState = 0"
    by (simp add: itemCount_def navItems_def c3)
  have c5: "\<not> indexInRange createNewState"
    by (simp add: indexInRange_def c3 c4)
  show ?thesis
    by (intro conjI danglingState_reached idx items inr nxt prv out chooseNewState_reached url
        c1 c2 c3 c4 c5)
qed

end
